theory Spec2Isabelle
  imports Main "HOL-Library.Sublist"
begin

section \<open>The launcher of src/main.cpp\<close>

text \<open>
  The program is one C++ translation unit: \<^verbatim>\<open>main\<close> and its helper functions.
  It talks to three collaborators, which the model takes as they are used:
  \<^item> the transport (\<^verbatim>\<open>curlGet\<close>): a function from the URL to the response body, the empty
    string on failure; every call is recorded, in order, in the world;
  \<^item> the JSON library (rapidjson): documents are values of a datatype; the accessors
    (\<^verbatim>\<open>operator[]\<close>, \<^verbatim>\<open>GetString\<close>, \<^verbatim>\<open>Size\<close>, \<^verbatim>\<open>HasMember\<close>) assert the type of the
    value they are applied to, and a failed assertion ends the program; the parser and
    the writer are parameters;
  \<^item> the file system: a map from a path's components to a node.
  Console output (\<^verbatim>\<open>std::cout\<close>, \<^verbatim>\<open>std::cerr\<close>) is not modelled.
\<close>

subsection \<open>Platform\<close>

text \<open>The two sides of \<^verbatim>\<open>#ifdef _WIN32\<close>; the constant \<^verbatim>\<open>os\<close> of lines 14 to 23.\<close>

datatype platform = Windows | Linux

definition os :: "platform \<Rightarrow> string" where
  "os p = (case p of Windows \<Rightarrow> ''windows'' | Linux \<Rightarrow> ''linux'')"

subsection \<open>Ways the program ends early\<close>

datatype error =
    AssertionFailed    \<comment> \<open>a rapidjson accessor applied to a value of the wrong shape\<close>
  | FilesystemError    \<comment> \<open>\<^verbatim>\<open>std::filesystem::create_directories\<close> throws\<close>
  | NullPointer        \<comment> \<open>\<^verbatim>\<open>std::string(std::getenv("HOME"))\<close> with HOME unset\<close>
  | ReturnMinusOne     \<comment> \<open>\<^verbatim>\<open>return -1\<close> of line 68\<close>
  | RegexNotModelled   \<comment> \<open>a pattern outside the fragment of regular expressions modelled here\<close>

definition andThen :: "error + 'a \<Rightarrow> ('a \<Rightarrow> error + 'b) \<Rightarrow> error + 'b" where
  "andThen r f = (case r of Inl e \<Rightarrow> Inl e | Inr v \<Rightarrow> f v)"

subsection \<open>JSON documents\<close>

text \<open>
  An object keeps its members in order; a lookup by name finds the first member of
  that name, as rapidjson's \<^verbatim>\<open>FindMember\<close> does. A default-constructed
  \<^verbatim>\<open>rapidjson::Document\<close> is \<open>JNull\<close>.
\<close>

datatype json =
    JNull
  | JBool bool
  | JNumber int
  | JString string
  | JArray "json list"
  | JObject "(string \<times> json) list"

text \<open>
  A \<^verbatim>\<open>const char*\<close> converted to \<^verbatim>\<open>std::string\<close>, or passed to \<^verbatim>\<open>Parse\<close>, ends at
  its first zero byte.
\<close>

definition c_str :: "string \<Rightarrow> string" where
  "c_str s = takeWhile (\<lambda>ch. ch \<noteq> CHR 0x00) s"

text \<open>\<^verbatim>\<open>value[name]\<close>\<close>

fun member_at :: "json \<Rightarrow> string \<Rightarrow> error + json" where
  "member_at (JObject ms) name =
     (case map_of ms name of Some v \<Rightarrow> Inr v | None \<Rightarrow> Inl AssertionFailed)"
| "member_at _ name = Inl AssertionFailed"

text \<open>\<^verbatim>\<open>value[i]\<close>\<close>

fun element_at :: "json \<Rightarrow> nat \<Rightarrow> error + json" where
  "element_at (JArray vs) i = (if i < length vs then Inr (vs ! i) else Inl AssertionFailed)"
| "element_at _ i = Inl AssertionFailed"

fun HasMember :: "json \<Rightarrow> string \<Rightarrow> error + bool" where
  "HasMember (JObject ms) name = Inr (map_of ms name \<noteq> None)"
| "HasMember _ name = Inl AssertionFailed"

fun GetString :: "json \<Rightarrow> error + string" where
  "GetString (JString s) = Inr (c_str s)"
| "GetString _ = Inl AssertionFailed"

text \<open>The elements of an array, for a loop over \<^verbatim>\<open>i < value.Size()\<close> that reads \<^verbatim>\<open>value[i]\<close>.\<close>

fun elements :: "json \<Rightarrow> error + json list" where
  "elements (JArray vs) = Inr vs"
| "elements _ = Inl AssertionFailed"

text \<open>The members of an object, for a loop from \<^verbatim>\<open>MemberBegin()\<close> to \<^verbatim>\<open>MemberEnd()\<close>.\<close>

fun members :: "json \<Rightarrow> error + (string \<times> json) list" where
  "members (JObject ms) = Inr ms"
| "members _ = Inl AssertionFailed"

fun IsString :: "json \<Rightarrow> bool" where
  "IsString (JString s) = True"
| "IsString _ = False"

fun IsArray :: "json \<Rightarrow> bool" where
  "IsArray (JArray vs) = True"
| "IsArray _ = False"

fun IsObject :: "json \<Rightarrow> bool" where
  "IsObject (JObject ms) = True"
| "IsObject _ = False"

text \<open>A chain of accessors: \<^verbatim>\<open>value["a"][0]["b"]\<close> is \<open>lookup value [Name a, Index 0, Name b]\<close>.\<close>

datatype accessor = Name string | Index nat

fun lookup :: "json \<Rightarrow> accessor list \<Rightarrow> error + json" where
  "lookup v [] = Inr v"
| "lookup v (Name n # rest) = andThen (member_at v n) (\<lambda>v'. lookup v' rest)"
| "lookup v (Index i # rest) = andThen (element_at v i) (\<lambda>v'. lookup v' rest)"

definition string_at :: "json \<Rightarrow> accessor list \<Rightarrow> error + string" where
  "string_at v path = andThen (lookup v path) GetString"

subsection \<open>The environment and the world\<close>

record env =
  plat :: platform
  curl_response :: "string \<Rightarrow> string"   \<comment> \<open>the body \<^verbatim>\<open>curlGet\<close> returns for a URL, empty on failure\<close>
  Parse :: "string \<Rightarrow> json"             \<comment> \<open>\<^verbatim>\<open>Document::Parse\<close> on a fresh document; \<open>JNull\<close> on a parse error\<close>
  Writer :: "json \<Rightarrow> string"            \<comment> \<open>the serialisation \<^verbatim>\<open>saveJsonToFile\<close> writes\<close>
  HOME :: "string option"                \<comment> \<open>\<^verbatim>\<open>std::getenv("HOME")\<close>\<close>
  GetProgramDirectory :: string

datatype node = File string | Dir

type_synonym filesystem = "string list \<Rightarrow> node option"

record world =
  files :: filesystem
  requests :: "string list"   \<comment> \<open>the URLs fetched so far, oldest first\<close>

subsection \<open>Paths\<close>

text \<open>
  A path string names the node reached through its components: the names between
  separators, empty names dropped (repeated and trailing separators do not matter to
  the operating system). The names \<^verbatim>\<open>.\<close> and \<^verbatim>\<open>..\<close> are not interpreted, and a relative
  path is read from the root. The root always exists.
\<close>

definition is_separator :: "platform \<Rightarrow> char \<Rightarrow> bool" where
  "is_separator p ch = (ch = CHR ''/'' \<or> (p = Windows \<and> ch = CHR 0x5C))"

fun split_path :: "platform \<Rightarrow> string \<Rightarrow> string \<Rightarrow> string list" where
  "split_path p name [] = (if name = [] then [] else [name])"
| "split_path p name (ch # rest) =
     (if is_separator p ch then (if name = [] then [] else [name]) @ split_path p [] rest
      else split_path p (name @ [ch]) rest)"

definition components :: "platform \<Rightarrow> string \<Rightarrow> string list" where
  "components p path = split_path p [] path"

definition node_at :: "filesystem \<Rightarrow> string list \<Rightarrow> node option" where
  "node_at fs cs = (if cs = [] then Some Dir else fs cs)"

text \<open>\<^verbatim>\<open>std::filesystem::exists\<close>\<close>

definition path_exists :: "env \<Rightarrow> world \<Rightarrow> string \<Rightarrow> bool" where
  "path_exists E w path = (node_at (files w) (components (plat E) path) \<noteq> None)"

definition DirectoryExists :: "env \<Rightarrow> world \<Rightarrow> string \<Rightarrow> bool" where
  "DirectoryExists E w directoryPath =
     (case node_at (files w) (components (plat E) directoryPath) of
        Some Dir \<Rightarrow> True | _ \<Rightarrow> False)"

definition FileExists :: "env \<Rightarrow> world \<Rightarrow> string \<Rightarrow> bool" where
  "FileExists E w filePath =
     (case node_at (files w) (components (plat E) filePath) of
        Some (File c) \<Rightarrow> True | _ \<Rightarrow> False)"

text \<open>
  \<^verbatim>\<open>std::filesystem::create_directories\<close>, the throwing overload: every missing
  directory on the way is created; a regular file on the way makes it throw.
\<close>

fun create_directories :: "filesystem \<Rightarrow> string list \<Rightarrow> string list \<Rightarrow> error + filesystem" where
  "create_directories fs base [] = Inr fs"
| "create_directories fs base (c # cs) =
     (case node_at fs (base @ [c]) of
        Some (File x) \<Rightarrow> Inl FilesystemError
      | Some Dir \<Rightarrow> create_directories fs (base @ [c]) cs
      | None \<Rightarrow> create_directories (fs(base @ [c] \<mapsto> Dir)) (base @ [c]) cs)"

definition CreateDirectoryIfNotExists :: "env \<Rightarrow> world \<Rightarrow> string \<Rightarrow> error + world" where
  "CreateDirectoryIfNotExists E w directoryPath =
     (if \<not> DirectoryExists E w directoryPath
      then andThen (create_directories (files w) [] (components (plat E) directoryPath))
             (\<lambda>fs. Inr (w\<lparr>files := fs\<rparr>))
      else Inr w)"

text \<open>
  Opening a path for writing (\<^verbatim>\<open>std::ofstream\<close>, \<^verbatim>\<open>std::fstream\<close> with \<^verbatim>\<open>std::ios::out\<close>)
  succeeds when the path names a file position (it is not empty and does not end in a
  separator), its parent is a directory and the path itself is not a directory.
  The result is the node to write, or \<open>None\<close> when the stream is not open.
\<close>

definition open_out :: "env \<Rightarrow> world \<Rightarrow> string \<Rightarrow> string list option" where
  "open_out E w path =
     (let cs = components (plat E) path in
      if path = [] \<or> is_separator (plat E) (last path) \<or> cs = [] then None
      else if node_at (files w) (butlast cs) = Some Dir \<and> node_at (files w) cs \<noteq> Some Dir
      then Some cs else None)"

definition CreateFileIfNotExists :: "env \<Rightarrow> world \<Rightarrow> string \<Rightarrow> world" where
  "CreateFileIfNotExists E w filePath =
     (if FileExists E w filePath then w
      else case open_out E w filePath of
             Some cs \<Rightarrow> w\<lparr>files := (files w)(cs \<mapsto> File [])\<rparr>
           | None \<Rightarrow> w)"

definition saveStringToFile :: "env \<Rightarrow> world \<Rightarrow> string \<Rightarrow> string \<Rightarrow> world" where
  "saveStringToFile E w savedString stringSavePath =
     (case open_out E w stringSavePath of
        Some cs \<Rightarrow> w\<lparr>files := (files w)(cs \<mapsto> File savedString)\<rparr>
      | None \<Rightarrow> w)"

definition saveJsonToFile :: "env \<Rightarrow> world \<Rightarrow> json \<Rightarrow> string \<Rightarrow> world" where
  "saveJsonToFile E w savedJson jsonSavePath =
     (let w1 = CreateFileIfNotExists E w jsonSavePath in
      case open_out E w1 jsonSavePath of
        Some cs \<Rightarrow> w1\<lparr>files := (files w1)(cs \<mapsto> File (Writer E savedJson))\<rparr>
      | None \<Rightarrow> w1)"

definition readFileContents :: "env \<Rightarrow> world \<Rightarrow> string \<Rightarrow> string" where
  "readFileContents E w filePath =
     (case node_at (files w) (components (plat E) filePath) of
        Some (File c) \<Rightarrow> c | _ \<Rightarrow> [])"

definition curlGet :: "env \<Rightarrow> world \<Rightarrow> string \<Rightarrow> world \<times> string" where
  "curlGet E w curlurl = (w\<lparr>requests := requests w @ [curlurl]\<rparr>, curl_response E curlurl)"

text \<open>
  \<^verbatim>\<open>std::filesystem::path::parent_path\<close>: the path without its last name and without
  the separators before it; the root directory stays.
\<close>

definition parent_path :: "platform \<Rightarrow> string \<Rightarrow> string" where
  "parent_path p path =
     (let stem = rev (dropWhile (is_separator p) (dropWhile (\<lambda>ch. \<not> is_separator p ch) (rev path)))
      in if stem = [] \<and> path \<noteq> [] \<and> is_separator p (hd path) then [hd path] else stem)"

subsection \<open>String helpers of the program\<close>

fun backslashesToForwardslashes_loop :: "string \<Rightarrow> string \<Rightarrow> string" where
  "backslashesToForwardslashes_loop escapedString [] = escapedString"
| "backslashesToForwardslashes_loop escapedString (ch # rest) =
     (if ch = CHR 0x5C
      then backslashesToForwardslashes_loop (escapedString @ [CHR ''/'']) rest
      else backslashesToForwardslashes_loop (escapedString @ [ch]) rest)"

definition backslashesToForwardslashes :: "string \<Rightarrow> string" where
  "backslashesToForwardslashes input = backslashesToForwardslashes_loop [] input"

fun escapeColon_loop :: "string \<Rightarrow> string \<Rightarrow> string" where
  "escapeColon_loop escapedString [] = escapedString"
| "escapeColon_loop escapedString (ch # rest) = escapeColon_loop (escapedString @ [ch]) rest"

definition escapeColon :: "string \<Rightarrow> string" where
  "escapeColon input = escapeColon_loop [] input"

subsection \<open>Regular expressions, as far as \<^verbatim>\<open>replacePlaceholders\<close> needs them\<close>

text \<open>
  \<^verbatim>\<open>replacePlaceholders\<close> builds the ECMAScript pattern \<^verbatim>\<open>\$\{\<close> + placeholder + \<^verbatim>\<open>\}\<close>
  and calls \<^verbatim>\<open>std::regex_replace\<close> with the default flags. The model covers the patterns
  that are a sequence of single-character atoms: an ordinary character, a syntax
  character after a backslash, and the dot. Any other pattern is outside the model
  (\<open>None\<close>); it is not said to fail.
\<close>

datatype atom = Lit char | AnyChar

definition syntax_character :: "char \<Rightarrow> bool" where
  "syntax_character ch =
     (ch \<in> set ''^$.*+?()[]{}|'' \<or> ch = CHR 0x5C)"

fun compile_regex :: "string \<Rightarrow> atom list option" where
  "compile_regex [] = Some []"
| "compile_regex [ch] =
     (if ch = CHR ''.'' then Some [AnyChar]
      else if syntax_character ch then None
      else Some [Lit ch])"
| "compile_regex (ch # d # rest) =
     (if ch = CHR 0x5C
      then (if syntax_character d then map_option (Cons (Lit d)) (compile_regex rest) else None)
      else if ch = CHR ''.'' then map_option (Cons AnyChar) (compile_regex (d # rest))
      else if syntax_character ch then None
      else map_option (Cons (Lit ch)) (compile_regex (d # rest)))"

text \<open>The dot matches every character but the line terminators.\<close>

fun atom_matches :: "atom \<Rightarrow> char \<Rightarrow> bool" where
  "atom_matches (Lit l) ch = (ch = l)"
| "atom_matches AnyChar ch = (ch \<noteq> CHR 0x0A \<and> ch \<noteq> CHR 0x0D)"

fun matches_here :: "atom list \<Rightarrow> string \<Rightarrow> bool" where
  "matches_here [] s = True"
| "matches_here (a # as) [] = False"
| "matches_here (a # as) (ch # s) = (atom_matches a ch \<and> matches_here as s)"

definition is_digit :: "char \<Rightarrow> bool" where
  "is_digit ch = (ch \<in> set ''0123456789'')"

text \<open>
  The replacement is a format string (\<^verbatim>\<open>match_results::format\<close>, ECMAScript rules):
  \<^verbatim>\<open>$$\<close> is a dollar, \<^verbatim>\<open>$&\<close> the match, \<^verbatim>\<open>$`\<close> the text before the match (from the end of
  the match before), \<^verbatim>\<open>$'\<close> the text after it, \<^verbatim>\<open>$n\<close> and \<^verbatim>\<open>$nn\<close> the n-th group. The
  patterns modelled have no group, so only group 0, the match, has a value (libstdc++
  reads \<^verbatim>\<open>$0\<close> as the match); a dollar before anything else stands for itself.
\<close>

fun format :: "string \<Rightarrow> string \<Rightarrow> string \<Rightarrow> string \<Rightarrow> string" where
  "format pre m suf [] = []"
| "format pre m suf [ch] = [ch]"
| "format pre m suf (ch # d # rest) =
     (if ch \<noteq> CHR ''$'' then ch # format pre m suf (d # rest)
      else if d = CHR ''$'' then CHR ''$'' # format pre m suf rest
      else if d = CHR ''&'' then m @ format pre m suf rest
      else if d = CHR 0x60 then pre @ format pre m suf rest
      else if d = CHR 0x27 then suf @ format pre m suf rest
      else if is_digit d then
        (case rest of
           [] \<Rightarrow> (if d = CHR ''0'' then m else [])
         | e # rest' \<Rightarrow>
             if is_digit e
             then (if d = CHR ''0'' \<and> e = CHR ''0'' then m else []) @ format pre m suf rest'
             else (if d = CHR ''0'' then m else []) @ format pre m suf rest)
      else CHR ''$'' # format pre m suf (d # rest))"

lemma matches_here_length: "matches_here atoms s \<Longrightarrow> length atoms \<le> length s"
  by (induction atoms s rule: matches_here.induct) auto

text \<open>
  \<^verbatim>\<open>std::regex_replace\<close>: the matches are found from left to right, each search starting
  where the match before ended; the text between matches is copied, each match is
  replaced by the formatted replacement. \<open>pre\<close> is the text since the last match.
  (The pattern of \<^verbatim>\<open>replacePlaceholders\<close> is never empty.)
\<close>

function regex_replace :: "atom list \<Rightarrow> string \<Rightarrow> string \<Rightarrow> string \<Rightarrow> string" where
  "regex_replace atoms fmt pre rest =
     (if atoms \<noteq> [] \<and> matches_here atoms rest
      then pre @ format pre (take (length atoms) rest) (drop (length atoms) rest) fmt
             @ regex_replace atoms fmt [] (drop (length atoms) rest)
      else case rest of
             [] \<Rightarrow> pre
           | ch # rest' \<Rightarrow> regex_replace atoms fmt (pre @ [ch]) rest')"
  by pat_completeness auto
termination
proof (relation "measure (\<lambda>(atoms, fmt, pre, rest). length rest)")
  show "wf (measure (\<lambda>(atoms, fmt, pre, rest). length rest))" by simp
next
  fix atoms :: "atom list" and fmt pre rest :: string
  assume a: "atoms \<noteq> [] \<and> matches_here atoms rest"
  then have le: "length atoms \<le> length rest" by (simp add: matches_here_length)
  from a have pos: "0 < length atoms" by simp
  from le pos have "length rest - length atoms < length rest" by arith
  then show "((atoms, fmt, [], drop (length atoms) rest), (atoms, fmt, pre, rest))
      \<in> measure (\<lambda>(atoms, fmt, pre, rest). length rest)"
    by simp
next
  fix atoms :: "atom list" and fmt pre rest :: string and ch :: char and rest' :: string
  assume "rest = ch # rest'"
  then show "((atoms, fmt, pre @ [ch], rest'), (atoms, fmt, pre, rest))
      \<in> measure (\<lambda>(atoms, fmt, pre, rest). length rest)"
    by simp
qed

declare regex_replace.simps [simp del]

definition replacePlaceholders :: "string \<Rightarrow> string \<Rightarrow> string \<Rightarrow> error + string" where
  "replacePlaceholders input placeholder replacement =
     (case compile_regex ([CHR 0x5C, CHR ''$'', CHR 0x5C, CHR ''{''] @ placeholder @ [CHR 0x5C, CHR ''}'']) of
        None \<Rightarrow> Inl RegexNotModelled
      | Some pattern \<Rightarrow> Inr (regex_replace pattern replacement [] input))"

text \<open>
  The specification's \<open>substitute\<close>, from its words: every occurrence of the literal
  token \<^verbatim>\<open>${key}\<close>, found from left to right, is replaced by the value, text for text.
\<close>

function replace_all :: "string \<Rightarrow> string \<Rightarrow> string \<Rightarrow> string" where
  "replace_all token v [] = []"
| "replace_all token v (ch # s) =
     (if token \<noteq> [] \<and> prefix token (ch # s)
      then v @ replace_all token v (drop (length token) (ch # s))
      else ch # replace_all token v s)"
  by pat_completeness auto
termination
  by (relation "measure (\<lambda>(token, v, s). length s)") (auto simp: Suc_diff_le prefix_def)

definition substitute :: "string \<Rightarrow> string \<Rightarrow> string \<Rightarrow> string" where
  "substitute template key v = replace_all (''${'' @ key @ ''}'') v template"

subsection \<open>\<^verbatim>\<open>main\<close>, lines 44 to 83: the manifest and the directories\<close>

definition manifest_url :: string where
  "manifest_url = ''https://launchermeta.mojang.com/mc/game/version_manifest.json''"

text \<open>
  Lines 46 to 53. When the transport returns the empty string the branch of line 48
  is empty (its only content is the comment \<^verbatim>\<open>// read from manifest_cache.json\<close>): the
  document stays as it was constructed.
\<close>

definition fetch_manifest :: "env \<Rightarrow> world \<Rightarrow> world \<times> json" where
  "fetch_manifest E w =
     (let (w1, documentString) = curlGet E w manifest_url;
          programDirectory = GetProgramDirectory E
      in if documentString = [] then (w1, JNull)
         else let document = Parse E (c_str documentString)
              in (saveJsonToFile E w1 document (programDirectory @ ''/manifest_cache.json''), document))"

text \<open>Lines 55 to 57.\<close>

definition create_alsoft_conf :: "env \<Rightarrow> world \<Rightarrow> error + world" where
  "create_alsoft_conf E w =
     (if os (plat E) = ''linux''
      then (case HOME E of
              None \<Rightarrow> Inl NullPointer
            | Some h \<Rightarrow> Inr (CreateFileIfNotExists E w (h @ ''/.config/alsoft.conf'')))
      else Inr w)"

text \<open>Lines 61 to 69.\<close>

definition create_program_directories :: "env \<Rightarrow> world \<Rightarrow> error + world" where
  "create_program_directories E w =
     (let programDirectory = GetProgramDirectory E
      in if programDirectory \<noteq> [] then
           andThen (CreateDirectoryIfNotExists E w (programDirectory @ ''/profiles'')) (\<lambda>w1.
           andThen (CreateDirectoryIfNotExists E w1 (programDirectory @ ''/assets/indexes'')) (\<lambda>w2.
           andThen (CreateDirectoryIfNotExists E w2 (programDirectory @ ''/assets/objects'')) (\<lambda>w3.
           CreateDirectoryIfNotExists E w3 (programDirectory @ ''/versions''))))
         else Inl ReturnMinusOne)"

text \<open>Lines 81 to 83.\<close>

definition create_version_directories :: "env \<Rightarrow> string \<Rightarrow> world \<Rightarrow> error + world" where
  "create_version_directories E version w =
     (let programDirectory = GetProgramDirectory E
      in andThen (CreateDirectoryIfNotExists E w (programDirectory @ ''/versions/'' @ version)) (\<lambda>w1.
         andThen (CreateDirectoryIfNotExists E w1
                    (programDirectory @ ''/versions/'' @ version @ ''/libraries'')) (\<lambda>w2.
         CreateDirectoryIfNotExists E w2 (programDirectory @ ''/profiles/'' @ version))))"

subsection \<open>Lines 95 to 113: the descriptor, the asset index, the logging file and the jar\<close>

text \<open>
  The loop of lines 96 to 102 over \<^verbatim>\<open>document["versions"]\<close>. \<open>versionJson\<close> is the
  document as it is when the loop starts; the first entry whose id is the version
  replaces it and ends the loop.
\<close>

fun resolve_loop :: "env \<Rightarrow> string \<Rightarrow> world \<Rightarrow> json \<Rightarrow> json list \<Rightarrow> error + world \<times> json" where
  "resolve_loop E version w versionJson [] = Inr (w, versionJson)"
| "resolve_loop E version w versionJson (entry # rest) =
     andThen (string_at entry [Name ''id'']) (\<lambda>entry_id.
       if entry_id = version
       then andThen (string_at entry [Name ''url'']) (\<lambda>url.
              let (w1, body) = curlGet E w url in Inr (w1, Parse E (c_str body)))
       else resolve_loop E version w versionJson rest)"

definition resolve_version :: "env \<Rightarrow> string \<Rightarrow> json \<Rightarrow> world \<Rightarrow> error + world \<times> json" where
  "resolve_version E version document w =
     andThen (lookup document [Name ''versions'']) (\<lambda>versions.
     andThen (elements versions) (\<lambda>entries.
     resolve_loop E version w JNull entries))"

text \<open>Lines 103 to 113, after the loop. The result is the world and the asset index.\<close>

definition download_descriptor_files :: "env \<Rightarrow> string \<Rightarrow> json \<Rightarrow> world \<Rightarrow> error + world \<times> json" where
  "download_descriptor_files E version versionJson w =
     (let programDirectory = GetProgramDirectory E in
      andThen (string_at versionJson [Name ''assetIndex'', Name ''url'']) (\<lambda>assetIndexUrl.
      let (w1, assetBody) = curlGet E w assetIndexUrl;
          assetJson = Parse E (c_str assetBody) in
      andThen (string_at versionJson [Name ''assets'']) (\<lambda>assets.
      let w2 = saveJsonToFile E w1 assetJson (programDirectory @ ''/assets/indexes/'' @ assets @ ''.json'');
          w3 = saveJsonToFile E w2 versionJson
                 (programDirectory @ ''/versions/'' @ version @ ''/'' @ version @ ''.json'') in
      andThen (string_at versionJson [Name ''logging'', Name ''client'', Name ''file'', Name ''id'']) (\<lambda>file_id.
      let tempPath = programDirectory @ ''/versions/'' @ version @ ''/'' @ ''logging-'' @ file_id;
          w4 = CreateFileIfNotExists E w3 tempPath in
      andThen (string_at versionJson [Name ''logging'', Name ''client'', Name ''file'', Name ''url'']) (\<lambda>file_url.
      let (w5, loggingBody) = curlGet E w4 file_url;
          w6 = saveStringToFile E w5 loggingBody tempPath in
      andThen (string_at versionJson [Name ''downloads'', Name ''client'', Name ''url'']) (\<lambda>client_url.
      let (w7, jarBody) = curlGet E w6 client_url;
          w8 = saveStringToFile E w7 jarBody
                 (programDirectory @ ''/versions/'' @ version @ ''/'' @ version @ ''.jar'')
      in Inr (w8, assetJson)))))))"

subsection \<open>Lines 116 to 144: the library pass\<close>

text \<open>
  Lines 131 to 136: the value of \<^verbatim>\<open>allowed\<close> that line 137 tests. (The value 1 that
  line 118 gives it is overwritten at line 131 before anything reads it.)
\<close>

definition library_allowed :: "env \<Rightarrow> json \<Rightarrow> error + bool" where
  "library_allowed E library =
     andThen (HasMember library ''rules'') (\<lambda>has_rules.
       let allowed = \<not> has_rules in
       if \<not> allowed
       then andThen (string_at library [Name ''rules'', Index 0, Name ''os'', Name ''name'']) (\<lambda>name.
              if name = os (plat E) then Inr True else Inr allowed)
       else Inr allowed)"

text \<open>The body of the loop, lines 118 to 143, for the library \<^verbatim>\<open>versionJson["libraries"][i]\<close>.\<close>

definition library_step :: "env \<Rightarrow> string \<Rightarrow> world \<Rightarrow> json \<Rightarrow> error + world" where
  "library_step E libBase w library =
     andThen (string_at library [Name ''downloads'', Name ''artifact'', Name ''path'']) (\<lambda>path.
     let libName = libBase @ path;
         libPath = parent_path (plat E) libName in
     andThen (string_at library [Name ''downloads'', Name ''artifact'', Name ''url'']) (\<lambda>libUrl.
       if libName \<noteq> libBase @ ''/null'' \<and> \<not> FileExists E w libName
       then andThen (library_allowed E library) (\<lambda>allowed.
              if allowed
              then andThen (CreateDirectoryIfNotExists E w libPath) (\<lambda>w1.
                     let w2 = CreateFileIfNotExists E w1 libName;
                         (w3, body) = curlGet E w2 libUrl
                     in Inr (saveStringToFile E w3 body libName))
              else Inr w)
       else Inr w))"

fun library_loop :: "env \<Rightarrow> string \<Rightarrow> world \<Rightarrow> json list \<Rightarrow> error + world" where
  "library_loop E libBase w [] = Inr w"
| "library_loop E libBase w (library # rest) =
     andThen (library_step E libBase w library) (\<lambda>w1. library_loop E libBase w1 rest)"

definition library_pass :: "env \<Rightarrow> string \<Rightarrow> json \<Rightarrow> world \<Rightarrow> error + world" where
  "library_pass E version versionJson w =
     (let libBase = GetProgramDirectory E @ ''/versions/'' @ version @ ''/libraries/'' in
      andThen (lookup versionJson [Name ''libraries'']) (\<lambda>libraries.
      andThen (elements libraries) (\<lambda>libs.
      library_loop E libBase w libs)))"

subsection \<open>Lines 145 to 160: the asset pass\<close>

definition resources_origin :: string where
  "resources_origin = ''https://resources.download.minecraft.net/''"

text \<open>Lines 150 to 153: the shard name, the folder and the file of an object's hash.\<close>

definition asset_id :: "string \<Rightarrow> string" where
  "asset_id objHash = take 2 objHash"

definition asset_objFolder :: "string \<Rightarrow> string \<Rightarrow> string" where
  "asset_objFolder programDirectory objHash =
     programDirectory @ ''/assets/objects/'' @ asset_id objHash @ ''/''"

definition asset_objFile :: "string \<Rightarrow> string \<Rightarrow> string" where
  "asset_objFile programDirectory objHash = asset_objFolder programDirectory objHash @ objHash"

text \<open>The body of the loop, lines 150 to 158, for one member of \<^verbatim>\<open>assetJson["objects"]\<close>.\<close>

definition asset_step :: "env \<Rightarrow> world \<Rightarrow> string \<times> json \<Rightarrow> error + world" where
  "asset_step E w it =
     andThen (string_at (snd it) [Name ''hash'']) (\<lambda>objHash.
     let programDirectory = GetProgramDirectory E;
         ident = asset_id objHash;
         objFolder = asset_objFolder programDirectory objHash;
         objFile = asset_objFile programDirectory objHash in
     andThen (CreateDirectoryIfNotExists E w objFolder) (\<lambda>w1.
       let w2 = CreateFileIfNotExists E w1 objFile;
           (w3, body) = curlGet E w2 (resources_origin @ ident @ ''/'' @ objHash)
       in Inr (saveStringToFile E w3 body objFile)))"

fun asset_loop :: "env \<Rightarrow> world \<Rightarrow> (string \<times> json) list \<Rightarrow> error + world" where
  "asset_loop E w [] = Inr w"
| "asset_loop E w (it # rest) = andThen (asset_step E w it) (\<lambda>w1. asset_loop E w1 rest)"

definition asset_pass :: "env \<Rightarrow> json \<Rightarrow> world \<Rightarrow> error + world" where
  "asset_pass E assetJson w =
     (let programDirectory = GetProgramDirectory E in
      if \<not> DirectoryExists E w (programDirectory @ ''/assets'')
      then andThen (CreateDirectoryIfNotExists E w (programDirectory @ ''/assets'')) (\<lambda>w1.
           andThen (lookup assetJson [Name ''objects'']) (\<lambda>objects.
           andThen (members objects) (\<lambda>its.
           asset_loop E w1 its)))
      else Inr w)"

subsection \<open>Lines 85 to 161: acquisition\<close>

definition marker_file :: "env \<Rightarrow> string \<Rightarrow> string" where
  "marker_file E version =
     GetProgramDirectory E @ ''/versions/'' @ version @ ''/'' @ version @ ''.config''"

text \<open>Lines 90 to 160, the branch taken when the marker file is missing.\<close>

definition download :: "env \<Rightarrow> string \<Rightarrow> json \<Rightarrow> world \<Rightarrow> error + world \<times> json" where
  "download E version document w =
     (let w1 = CreateFileIfNotExists E w (marker_file E version) in
      andThen (resolve_version E version document w1) (\<lambda>(w2, versionJson).
      andThen (download_descriptor_files E version versionJson w2) (\<lambda>(w3, assetJson).
      andThen (library_pass E version versionJson w3) (\<lambda>w4.
      andThen (asset_pass E assetJson w4) (\<lambda>w5.
      Inr (w5, versionJson))))))"

definition acquire :: "env \<Rightarrow> string \<Rightarrow> json \<Rightarrow> world \<Rightarrow> error + world \<times> json" where
  "acquire E version document w =
     (if FileExists E w (marker_file E version)
      then Inr (w, Parse E (c_str (readFileContents E w
                  (GetProgramDirectory E @ ''/versions/'' @ version @ ''/'' @ version @ ''.json''))))
      else download E version document w)"

subsection \<open>Lines 163 to 179: the classpath\<close>

text \<open>The separator appended under \<^verbatim>\<open>#ifdef _WIN32\<close>, lines 171 to 175.\<close>

definition path_separator :: "platform \<Rightarrow> string" where
  "path_separator p = (case p of Windows \<Rightarrow> '';'' | Linux \<Rightarrow> '':'')"

definition library_fullPath :: "env \<Rightarrow> string \<Rightarrow> string \<Rightarrow> string" where
  "library_fullPath E version path =
     (let artifactPath = ''libraries/'' @ path
      in GetProgramDirectory E @ ''/versions/'' @ version @ ''/'' @ artifactPath)"

fun classPath_loop :: "env \<Rightarrow> string \<Rightarrow> world \<Rightarrow> string \<Rightarrow> json list \<Rightarrow> error + string" where
  "classPath_loop E version w classPath [] = Inr classPath"
| "classPath_loop E version w classPath (library # rest) =
     andThen (string_at library [Name ''downloads'', Name ''artifact'', Name ''path'']) (\<lambda>path.
       let fullPath = library_fullPath E version path
       in if path_exists E w fullPath
          then classPath_loop E version w
                 (classPath @ escapeColon (backslashesToForwardslashes fullPath)
                    @ path_separator (plat E)) rest
          else classPath_loop E version w classPath rest)"

definition version_jar :: "env \<Rightarrow> string \<Rightarrow> string" where
  "version_jar E version =
     GetProgramDirectory E @ ''/versions/'' @ version @ ''/'' @ version @ ''.jar''"

text \<open>The value of \<^verbatim>\<open>classPath\<close> after line 178.\<close>

definition build_classPath :: "env \<Rightarrow> string \<Rightarrow> world \<Rightarrow> json \<Rightarrow> error + string" where
  "build_classPath E version w versionJson =
     andThen (lookup versionJson [Name ''libraries'']) (\<lambda>libraries.
     andThen (elements libraries) (\<lambda>libs.
     andThen (classPath_loop E version w [] libs) (\<lambda>classPath.
     Inr (classPath @ escapeColon (backslashesToForwardslashes (version_jar E version))))))"

text \<open>Line 179.\<close>

definition classPath_clause :: "string \<Rightarrow> string" where
  "classPath_clause classPath = '' -cp '' @ [CHR 0x22] @ classPath @ [CHR 0x22] @ '' ''"

subsection \<open>Lines 181 to 204: the game arguments\<close>

fun game_arguments_loop :: "string \<Rightarrow> json list \<Rightarrow> error + string" where
  "game_arguments_loop gameArgs [] = Inr gameArgs"
| "game_arguments_loop gameArgs (argument # rest) =
     (if \<not> IsObject argument
      then andThen (GetString argument) (\<lambda>s. game_arguments_loop (gameArgs @ s @ '' '') rest)
      else game_arguments_loop gameArgs rest)"

definition game_arguments_template :: "json \<Rightarrow> error + string" where
  "game_arguments_template versionJson =
     andThen (HasMember versionJson ''minecraftArguments'') (\<lambda>has_legacy.
       if has_legacy \<and> (case member_at versionJson ''minecraftArguments'' of
                           Inr v \<Rightarrow> IsString v | Inl e \<Rightarrow> False)
       then string_at versionJson [Name ''minecraftArguments'']
       else andThen (HasMember versionJson ''arguments'') (\<lambda>has_arguments.
              if \<not> has_arguments then Inr '' ''
              else andThen (member_at versionJson ''arguments'') (\<lambda>arguments.
                   andThen (HasMember arguments ''game'') (\<lambda>has_game.
                     if \<not> has_game then Inr '' ''
                     else andThen (member_at arguments ''game'') (\<lambda>game.
                            if IsArray game
                            then andThen (elements game) (game_arguments_loop '' '')
                            else Inr '' '')))))"

definition quoted :: "string \<Rightarrow> string" where
  "quoted s = [CHR 0x22] @ s @ [CHR 0x22]"

definition expand_game_arguments :: "env \<Rightarrow> string \<Rightarrow> string \<Rightarrow> json \<Rightarrow> string \<Rightarrow> error + string" where
  "expand_game_arguments E version username versionJson gameArgs =
     (let programDirectory = GetProgramDirectory E in
      andThen (replacePlaceholders gameArgs ''auth_player_name'' username) (\<lambda>a1.
      andThen (replacePlaceholders a1 ''version_name'' version) (\<lambda>a2.
      andThen (replacePlaceholders a2 ''game_directory''
                 (quoted (backslashesToForwardslashes programDirectory @ ''/profiles/'' @ version))) (\<lambda>a3.
      andThen (replacePlaceholders a3 ''assets_root''
                 ([CHR 0x22] @ backslashesToForwardslashes programDirectory @ ''/assets/'' @ [CHR 0x22])) (\<lambda>a4.
      andThen (replacePlaceholders a4 ''auth_xuid'' ''0'') (\<lambda>a5.
      andThen (replacePlaceholders a5 ''auth_uuid'' ''0'') (\<lambda>a6.
      andThen (replacePlaceholders a6 ''auth_access_token'' ''0'') (\<lambda>a7.
      andThen (replacePlaceholders a7 ''clientid'' ''0'') (\<lambda>a8.
      andThen (replacePlaceholders a8 ''user_type'' ''legacy'') (\<lambda>a9.
      andThen (replacePlaceholders a9 ''version_type'' ''release'') (\<lambda>a10.
      andThen (string_at versionJson [Name ''assetIndex'', Name ''id'']) (\<lambda>index_id.
      replacePlaceholders a10 ''assets_index_name'' index_id))))))))))))"

subsection \<open>\<^verbatim>\<open>main\<close>, up to the game arguments\<close>

record launch =
  final_world :: world
  classPath :: string     \<comment> \<open>after line 179\<close>
  gameArgs :: string      \<comment> \<open>after line 204\<close>

text \<open>
  \<^verbatim>\<open>main\<close> with the version and the user name as parameters; the program sets them in
  lines 76 and 80. What follows line 204 (the choice of the Java executable and the
  child process) is not modelled.
\<close>

definition launcher :: "env \<Rightarrow> string \<Rightarrow> string \<Rightarrow> world \<Rightarrow> error + launch" where
  "launcher E version username w =
     (let (w1, document) = fetch_manifest E w in
      andThen (create_alsoft_conf E w1) (\<lambda>w2.
      andThen (string_at document [Name ''latest'', Name ''release'']) (\<lambda>latestVersion.
      andThen (create_program_directories E w2) (\<lambda>w3.
      andThen (create_version_directories E version w3) (\<lambda>w4.
      andThen (acquire E version document w4) (\<lambda>(w5, versionJson).
      andThen (build_classPath E version w5 versionJson) (\<lambda>cp.
      andThen (game_arguments_template versionJson) (\<lambda>template.
      andThen (expand_game_arguments E version username versionJson template) (\<lambda>args.
      Inr \<lparr>final_world = w5, classPath = classPath_clause cp, gameArgs = args\<rparr>)))))))))"

definition main :: "env \<Rightarrow> world \<Rightarrow> error + launch" where
  "main E w = launcher E ''1.19.4'' ''humanitymanu'' w"

subsection \<open>A concrete installation\<close>

text \<open>
  The end-to-end scenario: the manifest lists version 1.19.4, its descriptor declares
  one library without rules, and the asset index holds one object, of hash \<^verbatim>\<open>aa11\<close>.
  The transport serves each document under its URL; the parser reads the three JSON
  bodies. The program lives in \<^verbatim>\<open>/ql\<close>, which exists and is empty.
\<close>

definition scenario_manifest :: json where
  "scenario_manifest = JObject [
     (''latest'', JObject [(''release'', JString ''1.19.4'')]),
     (''versions'', JArray [JObject [(''id'', JString ''1.19.4''), (''url'', JString ''http://d'')]])]"

definition library_at :: "string \<Rightarrow> string \<Rightarrow> json" where
  "library_at path url = JObject [(''downloads'', JObject [(''artifact'',
     JObject [(''path'', JString path), (''url'', JString url)])])]"

definition scenario_library :: json where
  "scenario_library = library_at ''org/lib.jar'' ''http://lib''"

definition descriptor_with :: "json list \<Rightarrow> json" where
  "descriptor_with libraries = JObject [
     (''assetIndex'', JObject [(''id'', JString ''3''), (''url'', JString ''http://a'')]),
     (''assets'', JString ''3''),
     (''downloads'', JObject [(''client'', JObject [(''url'', JString ''http://jar'')])]),
     (''libraries'', JArray libraries),
     (''logging'', JObject [(''client'', JObject [(''argument'', JString ''-Dlog=${path}''),
         (''file'', JObject [(''id'', JString ''log.xml''), (''url'', JString ''http://log'')])])]),
     (''mainClass'', JString ''Main''),
     (''minecraftArguments'', JString ''--username ${auth_player_name}'')]"

definition scenario_descriptor :: json where
  "scenario_descriptor = descriptor_with [scenario_library]"

definition scenario_assets :: json where
  "scenario_assets =
     JObject [(''objects'', JObject [(''icon.png'', JObject [(''hash'', JString ''aa11'')])])]"

definition scenario_response :: "string \<Rightarrow> string" where
  "scenario_response url =
     (if url = manifest_url then ''M''
      else if url = ''http://d'' then ''D''
      else if url = ''http://a'' then ''A''
      else if url = ''http://log'' then ''LOG''
      else if url = ''http://jar'' then ''JAR''
      else if url = ''http://lib'' then ''LIB''
      else if url = resources_origin @ ''aa/aa11'' then ''OBJ''
      else [])"

definition scenario_Parse :: "string \<Rightarrow> json" where
  "scenario_Parse s =
     (if s = ''M'' then scenario_manifest
      else if s = ''D'' then scenario_descriptor
      else if s = ''A'' then scenario_assets
      else JNull)"

definition scenario_Writer :: "json \<Rightarrow> string" where
  "scenario_Writer j =
     (if j = scenario_manifest then ''M''
      else if j = scenario_descriptor then ''D''
      else if j = scenario_assets then ''A''
      else ''null'')"

definition scenario :: env where
  "scenario = \<lparr>plat = Linux, curl_response = scenario_response, Parse = scenario_Parse,
      Writer = scenario_Writer, HOME = Some ''/home/u'', GetProgramDirectory = ''/ql''\<rparr>"

text \<open>The same installation with another manifest behind the manifest URL.\<close>

definition scenario_with :: "json \<Rightarrow> env" where
  "scenario_with manifest = scenario\<lparr>
     Parse := (\<lambda>s. if s = ''M'' then manifest else scenario_Parse s),
     Writer := (\<lambda>j. if j = manifest then ''M'' else scenario_Writer j)\<rparr>"

text \<open>A manifest that does not list version 1.19.4.\<close>

definition manifest_without :: json where
  "manifest_without = JObject [
     (''latest'', JObject [(''release'', JString ''1.19.3'')]),
     (''versions'', JArray [JObject [(''id'', JString ''1.19.3''), (''url'', JString ''http://d'')]])]"

text \<open>The same installation with a transport that fails on every URL.\<close>

definition scenario_offline :: env where
  "scenario_offline = scenario\<lparr>curl_response := (\<lambda>url. [])\<rparr>"

text \<open>A world given by the list of its nodes (the first entry of a path counts).\<close>

definition installed :: "(string list \<times> node) list \<Rightarrow> string list \<Rightarrow> world" where
  "installed tree urls = \<lparr>files = map_of tree, requests = urls\<rparr>"

definition fresh :: world where
  "fresh = installed [([''ql''], Dir)] []"

text \<open>The trees the run of the scenario goes through.\<close>

definition tree_start :: "(string list \<times> node) list" where
  "tree_start = [([''ql'', ''manifest_cache.json''], File ''M''), ([''ql''], Dir)]"

definition tree_directories :: "(string list \<times> node) list" where
  "tree_directories =
     [([''ql'', ''profiles'', ''1.19.4''], Dir),
      ([''ql'', ''versions'', ''1.19.4'', ''libraries''], Dir),
      ([''ql'', ''versions'', ''1.19.4''], Dir),
      ([''ql'', ''versions''], Dir),
      ([''ql'', ''assets'', ''objects''], Dir),
      ([''ql'', ''assets'', ''indexes''], Dir),
      ([''ql'', ''assets''], Dir),
      ([''ql'', ''profiles''], Dir)] @ tree_start"

definition tree_marker :: "(string list \<times> node) list" where
  "tree_marker = ([''ql'', ''versions'', ''1.19.4'', ''1.19.4.config''], File []) # tree_directories"

definition tree_descriptor :: "(string list \<times> node) list" where
  "tree_descriptor =
     [([''ql'', ''versions'', ''1.19.4'', ''1.19.4.jar''], File ''JAR''),
      ([''ql'', ''versions'', ''1.19.4'', ''logging-log.xml''], File ''LOG''),
      ([''ql'', ''versions'', ''1.19.4'', ''1.19.4.json''], File ''D''),
      ([''ql'', ''assets'', ''indexes'', ''3.json''], File ''A'')] @ tree_marker"

definition tree_library :: "(string list \<times> node) list" where
  "tree_library =
     [([''ql'', ''versions'', ''1.19.4'', ''libraries'', ''org'', ''lib.jar''], File ''LIB''),
      ([''ql'', ''versions'', ''1.19.4'', ''libraries'', ''org''], Dir)] @ tree_descriptor"


definition tree_jars :: "(string list \<times> node) list" where
  "tree_jars =
     [([''ql'', ''versions'', ''1.19.4'', ''libraries'', ''A.jar''], File ''a''),
      ([''ql'', ''versions'', ''1.19.4'', ''libraries'', ''B.jar''], File ''b'')] @ tree_directories"

subsection \<open>The specification's words\<close>

text \<open>
  The classpath of section 4.3: every entry followed by the separator, then the
  version's jar with no separator after it.
\<close>

definition classpath_of :: "string \<Rightarrow> string list \<Rightarrow> string \<Rightarrow> string" where
  "classpath_of sep entries jar = concat (map (\<lambda>e. e @ sep) entries) @ jar"


text \<open>
  A file system is a tree: whatever exists has a directory as its parent.
\<close>

definition well_formed :: "filesystem \<Rightarrow> bool" where
  "well_formed fs = (\<forall>cs. fs cs \<noteq> None \<longrightarrow> cs \<noteq> [] \<and> node_at fs (butlast cs) = Some Dir)"

section \<open>Properties\<close>

subsection \<open>Helpers\<close>

lemma andThen_Inr [simp]: "andThen (Inr v) f = f v"
  by (simp add: andThen_def)

lemma andThen_Inl [simp]: "andThen (Inl e) f = Inl e"
  by (simp add: andThen_def)

lemma escapeColon_loop_append: "escapeColon_loop acc s = acc @ s"
  by (induction s arbitrary: acc) simp_all

lemma escapeColon_id: "escapeColon s = s"
  by (simp add: escapeColon_def escapeColon_loop_append)

lemma backslashes_loop_map:
  "backslashesToForwardslashes_loop acc s =
     acc @ map (\<lambda>ch. if ch = CHR 0x5C then CHR ''/'' else ch) s"
  by (induction s arbitrary: acc) simp_all

lemma backslashesToForwardslashes_map:
  "backslashesToForwardslashes s = map (\<lambda>ch. if ch = CHR 0x5C then CHR ''/'' else ch) s"
  by (simp add: backslashesToForwardslashes_def backslashes_loop_map)

subsection \<open>Evaluating the concrete installation\<close>

text \<open>
  A world of the scenario is kept as the list of its nodes: an update of the map puts
  the new node in front, and a lookup walks the list.
\<close>

lemma upd_map_of_Nil: "(map_of [])(k \<mapsto> v) = map_of [(k, v)]"
  by simp

lemma upd_map_of_same: "(map_of ((k, v') # xs))(k \<mapsto> v) = map_of ((k, v) # xs)"
  by simp

lemma upd_map_of_other:
  "k \<noteq> k' \<Longrightarrow> (map_of ((k', v') # xs))(k \<mapsto> v) = map_of ((k, v) # (k', v') # xs)"
  by simp

lemmas tree_simps = upd_map_of_Nil upd_map_of_same upd_map_of_other map_of_Cons_code

lemmas tree_defs = installed_def fresh_def tree_start_def tree_directories_def tree_marker_def
  tree_descriptor_def tree_library_def

lemmas fs_defs = DirectoryExists_def FileExists_def path_exists_def CreateDirectoryIfNotExists_def
  CreateFileIfNotExists_def saveStringToFile_def saveJsonToFile_def readFileContents_def
  curlGet_def open_out_def node_at_def components_def is_separator_def parent_path_def

lemmas file_defs = saveJsonToFile_def saveStringToFile_def CreateFileIfNotExists_def
  CreateDirectoryIfNotExists_def DirectoryExists_def FileExists_def open_out_def node_at_def
  components_def is_separator_def

lemma scenario_fields:
  "plat scenario = Linux"
  "GetProgramDirectory scenario = ''/ql''"
  "curl_response scenario = scenario_response"
  by (simp_all add: scenario_def)

lemma scenario_with_fields:
  "plat (scenario_with m) = Linux"
  "GetProgramDirectory (scenario_with m) = ''/ql''"
  "HOME (scenario_with m) = Some ''/home/u''"
  "curl_response (scenario_with m) = scenario_response"
  "Parse (scenario_with m) ''M'' = m"
  "Writer (scenario_with m) m = ''M''"
  by (simp_all add: scenario_with_def scenario_def)

lemma scenario_is: "scenario = scenario_with scenario_manifest"
  by (simp add: scenario_with_def scenario_def scenario_Parse_def scenario_Writer_def fun_eq_iff)

lemma scenario_offline_fields:
  "plat scenario_offline = Linux"
  "GetProgramDirectory scenario_offline = ''/ql''"
  "HOME scenario_offline = Some ''/home/u''"
  "curl_response scenario_offline url = []"
  "Parse scenario_offline = scenario_Parse"
  by (simp_all add: scenario_offline_def scenario_def)

lemma descriptor_strings:
  "string_at (descriptor_with libs) [Name ''assetIndex'', Name ''url''] = Inr ''http://a''"
  "string_at (descriptor_with libs) [Name ''assetIndex'', Name ''id''] = Inr ''3''"
  "string_at (descriptor_with libs) [Name ''assets''] = Inr ''3''"
  "string_at (descriptor_with libs) [Name ''logging'', Name ''client'', Name ''file'', Name ''id''] = Inr ''log.xml''"
  "string_at (descriptor_with libs) [Name ''logging'', Name ''client'', Name ''file'', Name ''url''] = Inr ''http://log''"
  "string_at (descriptor_with libs) [Name ''downloads'', Name ''client'', Name ''url''] = Inr ''http://jar''"
  "lookup (descriptor_with libs) [Name ''libraries''] = Inr (JArray libs)"
  by (simp_all add: descriptor_with_def string_at_def c_str_def)

lemmas scenario_descriptor_strings =
  descriptor_strings [of "[scenario_library]", folded scenario_descriptor_def]

lemma library_strings:
  "string_at scenario_library [Name ''downloads'', Name ''artifact'', Name ''path''] = Inr ''org/lib.jar''"
  "string_at scenario_library [Name ''downloads'', Name ''artifact'', Name ''url''] = Inr ''http://lib''"
  "HasMember scenario_library ''rules'' = Inr False"
  by (simp_all add: scenario_library_def library_at_def string_at_def c_str_def)

lemma responses:
  "scenario_response ''http://a'' = ''A''"
  "scenario_response ''http://log'' = ''LOG''"
  "scenario_response ''http://jar'' = ''JAR''"
  "scenario_response ''http://lib'' = ''LIB''"
  by (simp_all add: scenario_response_def manifest_url_def)

lemma Parse_assets: "Parse (scenario_with m) (c_str ''A'') = scenario_assets"
  by (simp add: scenario_with_def scenario_def scenario_Parse_def c_str_def)

lemma Writer_scenario:
  "Writer (scenario_with scenario_manifest) scenario_assets = ''A''"
  "Writer (scenario_with scenario_manifest) scenario_descriptor = ''D''"
  by (simp_all add: scenario_with_def scenario_def scenario_Writer_def scenario_manifest_def
      scenario_assets_def scenario_descriptor_def descriptor_with_def)

lemma curlGet_installed:
  "curlGet (scenario_with m) (installed tree urls) url
   = (installed tree (urls @ [url]), scenario_response url)"
  by (simp add: curlGet_def installed_def scenario_with_fields)



subsection \<open>The rule of a library\<close>

text \<open>
  C1. In the library pass, where line 131 evaluates \<^verbatim>\<open>allowed\<close> for a library: a library
  with no \<^verbatim>\<open>rules\<close> member is allowed; a library with a \<^verbatim>\<open>rules\<close> member whose first
  rule records the platform name \<open>name\<close> (\<^verbatim>\<open>rules[0].os.name\<close>) is allowed exactly when
  \<open>name\<close> is the identifier of the running platform.
\<close>

theorem library_allowed_rule:
  "(HasMember library ''rules'' = Inr False \<longrightarrow> library_allowed E library = Inr True) \<and>
   (HasMember library ''rules'' = Inr True \<and>
      string_at library [Name ''rules'', Index 0, Name ''os'', Name ''name''] = Inr name
    \<longrightarrow> library_allowed E library = Inr (name = os (plat E)))"
  by (simp add: library_allowed_def)

text \<open>A library without rules, one for this platform and one for another.\<close>

theorem library_allowed_rule_witness:
  "library_allowed scenario scenario_library = Inr True \<and>
   library_allowed scenario
     (JObject [(''rules'', JArray [JObject [(''os'', JObject [(''name'', JString ''linux'')])]])])
     = Inr True \<and>
   library_allowed scenario
     (JObject [(''rules'', JArray [JObject [(''os'', JObject [(''name'', JString ''osx'')])]])])
     = Inr False"
  using library_allowed_rule [of scenario_library scenario]
    library_allowed_rule [of
      "JObject [(''rules'', JArray [JObject [(''os'', JObject [(''name'', JString ''linux'')])]])]"
      scenario "''linux''"]
    library_allowed_rule [of
      "JObject [(''rules'', JArray [JObject [(''os'', JObject [(''name'', JString ''osx'')])]])]"
      scenario "''osx''"]
  by (simp add: scenario_library_def library_at_def string_at_def c_str_def os_def scenario_def)

subsection \<open>Placeholders\<close>

lemma format_plain: "CHR ''$'' \<notin> set fmt \<Longrightarrow> format pre m suf fmt = fmt"
  by (induction pre m suf fmt rule: format.induct) auto

lemma matches_here_Lit: "matches_here (map Lit token) s = prefix token s"
proof (induction token arbitrary: s)
  case Nil
  then show ?case by simp
next
  case (Cons a token)
  then show ?case by (cases s) auto
qed

lemma compile_regex_plain:
  "\<forall>ch\<in>set plain. \<not> syntax_character ch \<Longrightarrow>
   compile_regex (plain @ rest) = map_option ((@) (map Lit plain)) (compile_regex rest)"
proof (induction plain)
  case Nil
  then show ?case by (simp add: option.map_ident)
next
  case (Cons a plain)
  then have a: "\<not> syntax_character a"
    and ih: "compile_regex (plain @ rest) = map_option ((@) (map Lit plain)) (compile_regex rest)"
    by simp_all
  from a have na: "a \<noteq> CHR 0x5C" "a \<noteq> CHR ''.''"
    by (auto simp: syntax_character_def)
  show ?case
  proof (cases "plain @ rest")
    case Nil
    then show ?thesis using a na by simp
  next
    case (Cons d r)
    then have "compile_regex ((a # plain) @ rest)
                 = map_option (Cons (Lit a)) (compile_regex (plain @ rest))"
      using a na by simp
    then show ?thesis using ih by (simp add: option.map_comp comp_def)
  qed
qed

lemma compile_placeholder:
  assumes "\<forall>ch\<in>set key. \<not> syntax_character ch"
  shows "compile_regex ([CHR 0x5C, CHR ''$'', CHR 0x5C, CHR ''{''] @ key @ [CHR 0x5C, CHR ''}''])
         = Some (map Lit (''${'' @ key @ ''}''))"
proof -
  have tail: "compile_regex [CHR 0x5C, CHR ''}''] = Some [Lit CHR ''}'']"
    by (simp add: syntax_character_def)
  have mid: "compile_regex (key @ [CHR 0x5C, CHR ''}'']) = Some (map Lit key @ [Lit CHR ''}''])"
    using compile_regex_plain [OF assms, of "[CHR 0x5C, CHR ''}'']"] tail by simp
  show ?thesis using mid by (simp add: syntax_character_def)
qed

lemma regex_replace_literal:
  assumes "token \<noteq> []" and "CHR ''$'' \<notin> set v"
  shows "regex_replace (map Lit token) v pre rest = pre @ replace_all token v rest"
  using assms
proof (induction "map Lit token" v pre rest rule: regex_replace.induct)
  case (1 fmt pre rest)
  show ?case
  proof (cases "prefix token rest")
    case True
    with 1 show ?thesis
      apply (subst regex_replace.simps)
      apply (cases rest)
       apply (simp_all add: matches_here_Lit format_plain)
      done
  next
    case False
    with 1 show ?thesis
      apply (subst regex_replace.simps)
      apply (cases rest)
       apply (simp_all add: matches_here_Lit format_plain)
      done
  qed
qed

lemma regex_replace_no_dollar:
  "CHR ''$'' \<notin> set rest \<Longrightarrow> regex_replace (Lit CHR ''$'' # atoms) fmt pre rest = pre @ rest"
proof (induction rest arbitrary: pre)
  case Nil
  then show ?case by (subst regex_replace.simps) simp
next
  case (Cons ch rest)
  then show ?case by (subst regex_replace.simps) auto
qed

lemma replacePlaceholders_no_dollar:
  assumes "\<forall>ch\<in>set key. \<not> syntax_character ch" and "CHR ''$'' \<notin> set template"
  shows "replacePlaceholders template key v = Inr template"
proof -
  have c: "compile_regex ([CHR 0x5C, CHR ''$'', CHR 0x5C, CHR ''{''] @ key @ [CHR 0x5C, CHR ''}''])
         = Some (map Lit (''${'' @ key @ ''}''))"
    by (rule compile_placeholder [OF assms(1)])
  have "replacePlaceholders template key v
        = Inr (regex_replace (map Lit (''${'' @ key @ ''}'')) v [] template)"
    unfolding replacePlaceholders_def by (simp only: c option.case)
  also have "map Lit (''${'' @ key @ ''}'') = Lit CHR ''$'' # map Lit (''{'' @ key @ ''}'')"
    by simp
  finally show ?thesis
    by (simp only: regex_replace_no_dollar [OF assms(2)] append_Nil)
qed

text \<open>
  C6, as amended. For every template, every key without a syntax character of regular
  expressions and every value without a dollar sign, \<^verbatim>\<open>replacePlaceholders\<close> returns the
  template with every occurrence of the literal token \<^verbatim>\<open>${key}\<close> replaced by the value,
  text for text.
\<close>

theorem replacePlaceholders_plain:
  assumes "\<forall>ch\<in>set key. \<not> syntax_character ch" and "CHR ''$'' \<notin> set v"
  shows "replacePlaceholders template key v = Inr (substitute template key v)"
proof -
  have c: "compile_regex ([CHR 0x5C, CHR ''$'', CHR 0x5C, CHR ''{''] @ key @ [CHR 0x5C, CHR ''}''])
         = Some (map Lit (''${'' @ key @ ''}''))"
    by (rule compile_placeholder [OF assms(1)])
  have t: "''${'' @ key @ ''}'' \<noteq> []" by simp
  have "replacePlaceholders template key v
        = Inr (regex_replace (map Lit (''${'' @ key @ ''}'')) v [] template)"
    unfolding replacePlaceholders_def by (simp only: c option.case)
  also have "\<dots> = Inr ([] @ replace_all (''${'' @ key @ ''}'') v template)"
    by (simp only: regex_replace_literal [OF t assms(2)])
  finally show ?thesis by (simp only: substitute_def append_Nil)
qed

text \<open>The example of the specification, through the theorem.\<close>

theorem replacePlaceholders_plain_witness:
  "list_all (\<lambda>ch. \<not> syntax_character ch) ''auth_player_name'' \<and>
   CHR ''$'' \<notin> set ''alice'' \<and>
   replacePlaceholders ''--username ${auth_player_name}'' ''auth_player_name'' ''alice''
     = Inr ''--username alice''"
proof -
  have k: "\<forall>ch\<in>set ''auth_player_name''. \<not> syntax_character ch"
    by (simp add: syntax_character_def)
  have v: "CHR ''$'' \<notin> set ''alice''" by simp
  have s: "substitute ''--username ${auth_player_name}'' ''auth_player_name'' ''alice''
             = ''--username alice''"
    by (simp add: substitute_def)
  from k have k': "list_all (\<lambda>ch. \<not> syntax_character ch) ''auth_player_name''"
    by (simp only: list_all_iff)
  show ?thesis
    using k' v s replacePlaceholders_plain [OF k v, of "''--username ${auth_player_name}''"]
    by (simp only: simp_thms)
qed

text \<open>
  The claim as stated fails: the value is a format string, in which \<^verbatim>\<open>$$\<close> stands for one
  dollar sign, and the key is part of a pattern, in which a dot matches any character.
\<close>

theorem replacePlaceholders_counterexample:
  "replacePlaceholders ''${k}'' ''k'' ''$$'' = Inr ''$'' \<and>
   substitute ''${k}'' ''k'' ''$$'' = ''$$'' \<and>
   replacePlaceholders ''${abc}'' ''a.c'' ''X'' = Inr ''X'' \<and>
   substitute ''${abc}'' ''a.c'' ''X'' = ''${abc}''"
  by (simp add: replacePlaceholders_def substitute_def syntax_character_def is_digit_def
      regex_replace.simps)

subsection \<open>\<^verbatim>\<open>escapeColon\<close>\<close>

text \<open>
  C10. \<^verbatim>\<open>escapeColon\<close> returns its input unchanged, whatever the input: a colon in a
  classpath entry stays as it is.
\<close>

theorem escapeColon_identity: "escapeColon input = input"
  by (simp add: escapeColon_def escapeColon_loop_append)

subsection \<open>The classpath\<close>

lemma classPath_loop_paths:
  "map (\<lambda>lib. string_at lib [Name ''downloads'', Name ''artifact'', Name ''path'']) libs = map Inr paths \<Longrightarrow>
   classPath_loop E version w cp libs =
     Inr (cp @ concat (map (\<lambda>p. map (\<lambda>ch. if ch = CHR 0x5C then CHR ''/'' else ch) (library_fullPath E version p) @ path_separator (plat E))
                    (filter (\<lambda>p. path_exists E w (library_fullPath E version p)) paths)))"
proof (induction libs arbitrary: paths cp)
  case Nil
  then show ?case by simp
next
  case (Cons lib libs)
  then obtain p ps where ps: "paths = p # ps" by (cases paths) auto
  with Cons.prems have p: "string_at lib [Name ''downloads'', Name ''artifact'', Name ''path''] = Inr p"
    and rest: "map (\<lambda>lib. string_at lib [Name ''downloads'', Name ''artifact'', Name ''path'']) libs = map Inr ps"
    by simp_all
  show ?case
    using Cons.IH [OF rest] p ps
    by (simp add: Let_def escapeColon_id backslashesToForwardslashes_map)
qed

text \<open>
  C5. When the descriptor's libraries have the artifact paths \<open>paths\<close>, the classpath is,
  for each library whose full path exists on disk and in the order of the descriptor,
  that path with every backslash turned into a forward slash, followed by the
  separator (\<^verbatim>\<open>;\<close> on Windows, \<^verbatim>\<open>:\<close> otherwise), and at the end the version's jar path with
  no separator after it. The entries \<^verbatim>\<open>A.jar\<close> and \<^verbatim>\<open>B.jar\<close> and the jar \<^verbatim>\<open>V.jar\<close> give
  \<^verbatim>\<open>A.jar:B.jar:V.jar\<close> on the platform that is not Windows.
\<close>

theorem classPath_built:
  assumes "lookup versionJson [Name ''libraries''] = Inr (JArray libs)"
    and "map (\<lambda>lib. string_at lib [Name ''downloads'', Name ''artifact'', Name ''path'']) libs = map Inr paths"
  shows "build_classPath E version w versionJson =
           Inr (classpath_of (path_separator (plat E))
                  (map (\<lambda>p. map (\<lambda>ch. if ch = CHR 0x5C then CHR ''/'' else ch) (library_fullPath E version p))
                     (filter (\<lambda>p. path_exists E w (library_fullPath E version p)) paths))
                  (map (\<lambda>ch. if ch = CHR 0x5C then CHR ''/'' else ch) (version_jar E version)))
         \<and> path_separator Windows = '';'' \<and> path_separator Linux = '':''
         \<and> classpath_of (path_separator Linux) [''A.jar'', ''B.jar''] ''V.jar'' = ''A.jar:B.jar:V.jar''"
  using assms(1) classPath_loop_paths [OF assms(2), of E version w "[]"]
  by (simp add: build_classPath_def classpath_of_def path_separator_def escapeColon_id
      backslashesToForwardslashes_map comp_def map_concat)

text \<open>Three libraries, the second of which is not on disk.\<close>

theorem classPath_built_witness:
  "build_classPath scenario ''1.19.4'' (installed tree_jars [])
     (descriptor_with [library_at ''A.jar'' ''http://A'', library_at ''missing.jar'' ''http://C'',
        library_at ''B.jar'' ''http://B''])
   = Inr ''/ql/versions/1.19.4/libraries/A.jar:/ql/versions/1.19.4/libraries/B.jar:/ql/versions/1.19.4/1.19.4.jar''"
proof -
  let ?libs = "[library_at ''A.jar'' ''http://A'', library_at ''missing.jar'' ''http://C'',
        library_at ''B.jar'' ''http://B'']"
  have libs: "lookup (descriptor_with ?libs) [Name ''libraries''] = Inr (JArray ?libs)"
    by (rule descriptor_strings)
  have paths: "map (\<lambda>lib. string_at lib [Name ''downloads'', Name ''artifact'', Name ''path'']) ?libs
               = map Inr [''A.jar'', ''missing.jar'', ''B.jar'']"
    by (simp add: library_at_def string_at_def c_str_def)
  have present: "filter (\<lambda>p. path_exists scenario (installed tree_jars []) (library_fullPath scenario ''1.19.4'' p))
                   [''A.jar'', ''missing.jar'', ''B.jar''] = [''A.jar'', ''B.jar'']"
    by (simp add: path_exists_def node_at_def components_def is_separator_def library_fullPath_def
        scenario_fields tree_defs tree_jars_def tree_simps del: map_of.simps)
  show ?thesis
    using classPath_built [OF libs paths, of scenario "''1.19.4''" "installed tree_jars []"]
    unfolding present
    by (simp add: classpath_of_def path_separator_def library_fullPath_def version_jar_def
        scenario_fields)
qed

subsection \<open>Paths and directories\<close>

lemma split_path_separator:
  "is_separator p ch \<Longrightarrow> split_path p name (a @ ch # b) = split_path p name a @ split_path p [] b"
  by (induction a arbitrary: name) simp_all

lemma components_separator:
  "is_separator p ch \<Longrightarrow> components p (a @ ch # b) = components p a @ components p b"
  by (simp add: components_def split_path_separator)




lemma slash_separator: "is_separator p CHR ''/''"
  by (simp add: is_separator_def)




lemma node_at_root: "node_at fs [] = Some Dir"
  by (simp add: node_at_def)

lemma create_directories_dir:
  "node_at fs base = Some Dir \<Longrightarrow> create_directories fs base cs = Inr fs' \<Longrightarrow>
   node_at fs' (base @ cs) = Some Dir"
proof (induction cs arbitrary: fs base)
  case Nil
  then show ?case by simp
next
  case (Cons c cs)
  show ?case
  proof (cases "node_at fs (base @ [c])")
    case None
    with Cons.prems have "create_directories (fs(base @ [c] \<mapsto> Dir)) (base @ [c]) cs = Inr fs'"
      by simp
    moreover have "node_at (fs(base @ [c] \<mapsto> Dir)) (base @ [c]) = Some Dir"
      by (simp add: node_at_def)
    ultimately have "node_at fs' ((base @ [c]) @ cs) = Some Dir" by (rule Cons.IH [rotated])
    then show ?thesis by simp
  next
    case (Some n)
    show ?thesis
    proof (cases n)
      case (File x)
      with Some Cons.prems show ?thesis by simp
    next
      case Dir
      with Some Cons.prems have "create_directories fs (base @ [c]) cs = Inr fs'" by simp
      with Some Dir have "node_at fs' ((base @ [c]) @ cs) = Some Dir" by (intro Cons.IH) simp_all
      then show ?thesis by simp
    qed
  qed
qed

lemma create_directories_keeps:
  "create_directories fs base cs = Inr fs' \<Longrightarrow> fs q = Some n \<Longrightarrow> fs' q = Some n"
proof (induction cs arbitrary: fs base)
  case Nil
  then show ?case by simp
next
  case (Cons c cs)
  show ?case
  proof (cases "node_at fs (base @ [c])")
    case None
    then have "q \<noteq> base @ [c]" using Cons.prems(2) by (auto simp: node_at_def)
    then have "(fs(base @ [c] \<mapsto> Dir)) q = Some n" using Cons.prems(2) by simp
    moreover from None Cons.prems have "create_directories (fs(base @ [c] \<mapsto> Dir)) (base @ [c]) cs = Inr fs'"
      by simp
    ultimately show ?thesis by (rule Cons.IH [rotated])
  next
    case (Some m)
    with Cons.prems show ?thesis by (cases m) (auto intro: Cons.IH)
  qed
qed




lemma CreateDirectoryIfNotExists_dir:
  assumes "CreateDirectoryIfNotExists E w p = Inr w1"
  shows "node_at (files w1) (components (plat E) p) = Some Dir"
proof (cases "DirectoryExists E w p")
  case True
  with assms have "w1 = w" by (simp add: CreateDirectoryIfNotExists_def)
  with True show ?thesis
    by (auto simp: DirectoryExists_def split: option.splits node.splits)
next
  case False
  with assms obtain fs where fs: "create_directories (files w) [] (components (plat E) p) = Inr fs"
    and w1: "w1 = w\<lparr>files := fs\<rparr>"
    by (auto simp: CreateDirectoryIfNotExists_def andThen_def split: sum.splits)
  from create_directories_dir [OF node_at_root fs] w1 show ?thesis by simp
qed



lemma CreateDirectoryIfNotExists_keeps:
  "CreateDirectoryIfNotExists E w p = Inr w1 \<Longrightarrow> files w q = Some n \<Longrightarrow> files w1 q = Some n"
  using create_directories_keeps [of "files w" "[]" "components (plat E) p" _ q n]
  by (auto simp: CreateDirectoryIfNotExists_def andThen_def split: if_splits sum.splits)



subsection \<open>The storage path of an asset object\<close>



subsection \<open>What is on disk is not fetched again\<close>

lemma well_formed_prefix:
  "well_formed fs \<Longrightarrow> node_at fs (a @ b) \<noteq> None \<Longrightarrow> b \<noteq> [] \<Longrightarrow> node_at fs a = Some Dir"
proof (induction b rule: rev_induct)
  case Nil
  then show ?case by simp
next
  case (snoc x b)
  from snoc.prems(2) have "fs (a @ b @ [x]) \<noteq> None"
    by (simp add: node_at_def)
  with snoc.prems(1) have "node_at fs (butlast (a @ b @ [x])) = Some Dir"
    unfolding well_formed_def by blast
  then have parent: "node_at fs (a @ b) = Some Dir"
    by (simp add: butlast_append)
  show ?case
  proof (cases "b = []")
    case True
    with parent show ?thesis by simp
  next
    case False
    with snoc.IH [OF snoc.prems(1)] parent show ?thesis by simp
  qed
qed





text \<open>A regular file stays a regular file through every step of the acquisition.\<close>

lemma FileExists_files:
  "FileExists E w p = (\<exists>c. components (plat E) p \<noteq> [] \<and> files w (components (plat E) p) = Some (File c))"
  by (auto simp: FileExists_def node_at_def split: option.splits node.splits)





lemma FileExists_curlGet:
  "FileExists E w p \<Longrightarrow> FileExists E (fst (curlGet E w url)) p"
  by (simp add: FileExists_files curlGet_def)

lemma FileExists_requests [simp]:
  "FileExists E (w\<lparr>requests := r\<rparr>) p = FileExists E w p"
  by (simp add: FileExists_files)
















subsection \<open>The run of the scenario\<close>

lemma fetch_manifest_scenario:
  "fetch_manifest (scenario_with m) fresh = (installed tree_start [manifest_url], m)"
  by (simp add: fetch_manifest_def fresh_def tree_defs fs_defs scenario_with_fields
      scenario_response_def c_str_def tree_simps del: map_of.simps)

lemma create_alsoft_conf_scenario:
  "create_alsoft_conf (scenario_with m) (installed tree_start urls) = Inr (installed tree_start urls)"
  by (simp add: create_alsoft_conf_def os_def tree_defs fs_defs scenario_with_fields
      tree_simps del: map_of.simps)

lemma create_directories_scenario:
  "andThen (create_program_directories (scenario_with m) (installed tree_start urls))
     (create_version_directories (scenario_with m) ''1.19.4'')
   = Inr (installed tree_directories urls)"
  by (simp add: create_program_directories_def create_version_directories_def tree_defs fs_defs
      scenario_with_fields tree_simps del: map_of.simps)

lemma marker_scenario:
  "\<not> FileExists (scenario_with m) (installed tree_directories urls) (marker_file (scenario_with m) ''1.19.4'') \<and>
   CreateFileIfNotExists (scenario_with m) (installed tree_directories urls)
     (marker_file (scenario_with m) ''1.19.4'') = installed tree_marker urls"
  by (simp add: marker_file_def tree_defs fs_defs scenario_with_fields tree_simps del: map_of.simps)

lemma resolve_version_scenario:
  "resolve_version (scenario_with scenario_manifest) ''1.19.4'' scenario_manifest (installed tree urls)
   = Inr (installed tree (urls @ [''http://d'']), scenario_descriptor)"
  by (simp add: resolve_version_def scenario_manifest_def string_at_def c_str_def curlGet_def
      installed_def scenario_with_def scenario_def scenario_response_def scenario_Parse_def manifest_url_def)

lemma download_descriptor_files_scenario:
  "download_descriptor_files (scenario_with scenario_manifest) ''1.19.4'' scenario_descriptor
     (installed tree_marker [manifest_url, ''http://d''])
   = Inr (installed tree_descriptor
            [manifest_url, ''http://d'', ''http://a'', ''http://log'', ''http://jar''],
          scenario_assets)"
proof -
  let ?E = "scenario_with scenario_manifest"
  let ?index = "([''ql'', ''assets'', ''indexes'', ''3.json''], File ''A'')"
  let ?json = "([''ql'', ''versions'', ''1.19.4'', ''1.19.4.json''], File ''D'')"
  have index: "\<And>urls. saveJsonToFile ?E (installed tree_marker urls)
                 scenario_assets ''/ql/assets/indexes/3.json''
               = installed (?index # tree_marker) urls"
    by (simp add: file_defs Writer_scenario scenario_with_fields tree_defs tree_simps
        del: map_of.simps)
  have descriptor: "\<And>urls. saveJsonToFile ?E (installed (?index # tree_marker) urls)
                 scenario_descriptor ''/ql/versions/1.19.4/1.19.4.json''
               = installed (?json # ?index # tree_marker) urls"
    by (simp add: file_defs Writer_scenario scenario_with_fields tree_defs tree_simps
        del: map_of.simps)
  have logging_file: "\<And>urls. CreateFileIfNotExists ?E (installed (?json # ?index # tree_marker) urls)
                    ''/ql/versions/1.19.4/logging-log.xml''
               = installed (([''ql'', ''versions'', ''1.19.4'', ''logging-log.xml''], File [])
                             # ?json # ?index # tree_marker) urls"
    by (simp add: file_defs scenario_with_fields tree_defs tree_simps del: map_of.simps)
  have logging: "\<And>urls. saveStringToFile ?E
                 (installed (([''ql'', ''versions'', ''1.19.4'', ''logging-log.xml''], File [])
                             # ?json # ?index # tree_marker) urls)
                 ''LOG'' ''/ql/versions/1.19.4/logging-log.xml''
               = installed (([''ql'', ''versions'', ''1.19.4'', ''logging-log.xml''], File ''LOG'')
                             # ?json # ?index # tree_marker) urls"
    by (simp add: file_defs scenario_with_fields tree_defs tree_simps del: map_of.simps)
  have jar: "\<And>urls. saveStringToFile ?E
                 (installed (([''ql'', ''versions'', ''1.19.4'', ''logging-log.xml''], File ''LOG'')
                             # ?json # ?index # tree_marker) urls)
                 ''JAR'' ''/ql/versions/1.19.4/1.19.4.jar''
               = installed tree_descriptor urls"
    by (simp add: file_defs scenario_with_fields tree_defs tree_simps del: map_of.simps)
  show ?thesis
    unfolding download_descriptor_files_def
    by (simp only: scenario_descriptor_strings andThen_Inr Let_def scenario_with_fields
        curlGet_installed case_prod_conv responses Parse_assets append_Cons append_Nil
        index descriptor logging_file logging jar)
qed

lemma library_step_scenario:
  "library_step (scenario_with m) ''/ql/versions/1.19.4/libraries/'' (installed tree_descriptor urls)
     scenario_library
   = Inr (installed tree_library (urls @ [''http://lib'']))"
proof -
  let ?E = "scenario_with m"
  let ?org = "([''ql'', ''versions'', ''1.19.4'', ''libraries'', ''org''], Dir)"
  have absent: "\<not> FileExists ?E (installed tree_descriptor urls)
                    ''/ql/versions/1.19.4/libraries/org/lib.jar''"
    by (simp add: file_defs scenario_with_fields tree_defs tree_simps del: map_of.simps)
  have parent: "parent_path Linux ''/ql/versions/1.19.4/libraries/org/lib.jar''
                  = ''/ql/versions/1.19.4/libraries/org''"
    by (simp add: parent_path_def is_separator_def)
  have folder: "CreateDirectoryIfNotExists ?E (installed tree_descriptor urls)
                  ''/ql/versions/1.19.4/libraries/org''
                = Inr (installed (?org # tree_descriptor) urls)"
    by (simp add: file_defs scenario_with_fields tree_defs tree_simps del: map_of.simps)
  have placeholder: "\<And>urls. CreateFileIfNotExists ?E (installed (?org # tree_descriptor) urls)
                  ''/ql/versions/1.19.4/libraries/org/lib.jar''
                = installed (([''ql'', ''versions'', ''1.19.4'', ''libraries'', ''org'', ''lib.jar''], File [])
                              # ?org # tree_descriptor) urls"
    by (simp add: file_defs scenario_with_fields tree_defs tree_simps del: map_of.simps)
  have artifact: "\<And>urls. saveStringToFile ?E
                  (installed (([''ql'', ''versions'', ''1.19.4'', ''libraries'', ''org'', ''lib.jar''], File [])
                              # ?org # tree_descriptor) urls)
                  ''LIB'' ''/ql/versions/1.19.4/libraries/org/lib.jar''
                = installed tree_library urls"
    by (simp add: file_defs scenario_with_fields tree_defs tree_simps del: map_of.simps)
  have allowed: "library_allowed ?E scenario_library = Inr True"
    by (simp add: library_allowed_def library_strings)
  have differs: "''/ql/versions/1.19.4/libraries/org/lib.jar'' \<noteq> ''/ql/versions/1.19.4/libraries//null''"
    by simp
  show ?thesis
    unfolding library_step_def
    by (simp only: library_strings andThen_Inr Let_def scenario_with_fields append_Cons append_Nil
        absent differs parent allowed folder placeholder curlGet_installed case_prod_conv responses
        artifact simp_thms if_True)
qed

lemma library_pass_scenario:
  "library_pass (scenario_with m) ''1.19.4'' scenario_descriptor (installed tree_descriptor urls)
   = Inr (installed tree_library (urls @ [''http://lib'']))"
  unfolding library_pass_def
  by (simp only: scenario_with_fields scenario_descriptor_strings Let_def andThen_Inr elements.simps
      library_loop.simps library_step_scenario append_Cons append_Nil)

lemma asset_pass_scenario:
  "asset_pass (scenario_with m) assetJson (installed tree_library urls) = Inr (installed tree_library urls)"
  by (simp add: asset_pass_def file_defs scenario_with_fields tree_defs tree_simps del: map_of.simps)

lemma download_scenario:
  "download (scenario_with scenario_manifest) ''1.19.4'' scenario_manifest
     (installed tree_directories [manifest_url])
   = Inr (installed tree_library
            [manifest_url, ''http://d'', ''http://a'', ''http://log'', ''http://jar'', ''http://lib''],
          scenario_descriptor)"
  unfolding download_def
  by (simp only: Let_def marker_scenario resolve_version_scenario andThen_Inr case_prod_conv
      append_Cons append_Nil download_descriptor_files_scenario library_pass_scenario asset_pass_scenario)

lemma acquire_scenario:
  "acquire (scenario_with scenario_manifest) ''1.19.4'' scenario_manifest
     (installed tree_directories [manifest_url])
   = Inr (installed tree_library
            [manifest_url, ''http://d'', ''http://a'', ''http://log'', ''http://jar'', ''http://lib''],
          scenario_descriptor)"
  unfolding acquire_def
  by (simp only: marker_scenario if_False download_scenario)

lemma build_classPath_scenario:
  "build_classPath (scenario_with m) ''1.19.4'' (installed tree_library urls) scenario_descriptor
   = Inr ''/ql/versions/1.19.4/libraries/org/lib.jar:/ql/versions/1.19.4/1.19.4.jar''"
proof -
  have present: "path_exists (scenario_with m) (installed tree_library urls)
                   ''/ql/versions/1.19.4/libraries/org/lib.jar''"
    by (simp add: path_exists_def node_at_def components_def is_separator_def scenario_with_fields
        tree_defs tree_simps del: map_of.simps)
  show ?thesis
    unfolding build_classPath_def
    by (simp add: scenario_descriptor_strings library_strings library_fullPath_def version_jar_def
        scenario_with_fields present path_separator_def escapeColon_id backslashesToForwardslashes_map
        del: lookup.simps)
qed

lemma game_arguments_scenario:
  "game_arguments_template scenario_descriptor = Inr ''--username ${auth_player_name}''"
  by (simp add: game_arguments_template_def scenario_descriptor_def descriptor_with_def
      string_at_def c_str_def)

lemma expand_first:
  "replacePlaceholders ''--username ${auth_player_name}'' ''auth_player_name'' ''humanitymanu''
     = Inr ''--username humanitymanu''"
  by (simp add: replacePlaceholders_def syntax_character_def regex_replace.simps)

lemma plain_keys:
  "\<forall>ch\<in>set ''version_name''. \<not> syntax_character ch"
  "\<forall>ch\<in>set ''game_directory''. \<not> syntax_character ch"
  "\<forall>ch\<in>set ''assets_root''. \<not> syntax_character ch"
  "\<forall>ch\<in>set ''auth_xuid''. \<not> syntax_character ch"
  "\<forall>ch\<in>set ''auth_uuid''. \<not> syntax_character ch"
  "\<forall>ch\<in>set ''auth_access_token''. \<not> syntax_character ch"
  "\<forall>ch\<in>set ''clientid''. \<not> syntax_character ch"
  "\<forall>ch\<in>set ''user_type''. \<not> syntax_character ch"
  "\<forall>ch\<in>set ''version_type''. \<not> syntax_character ch"
  "\<forall>ch\<in>set ''assets_index_name''. \<not> syntax_character ch"
  by (simp_all add: syntax_character_def)

lemma expand_game_arguments_scenario:
  "expand_game_arguments (scenario_with m) ''1.19.4'' ''humanitymanu'' scenario_descriptor
     ''--username ${auth_player_name}''
   = Inr ''--username humanitymanu''"
proof -
  have plain: "CHR ''$'' \<notin> set ''--username humanitymanu''" by simp
  show ?thesis
    unfolding expand_game_arguments_def
    by (simp only: Let_def expand_first andThen_Inr scenario_descriptor_strings
        replacePlaceholders_no_dollar [OF plain_keys(1) plain]
        replacePlaceholders_no_dollar [OF plain_keys(2) plain]
        replacePlaceholders_no_dollar [OF plain_keys(3) plain]
        replacePlaceholders_no_dollar [OF plain_keys(4) plain]
        replacePlaceholders_no_dollar [OF plain_keys(5) plain]
        replacePlaceholders_no_dollar [OF plain_keys(6) plain]
        replacePlaceholders_no_dollar [OF plain_keys(7) plain]
        replacePlaceholders_no_dollar [OF plain_keys(8) plain]
        replacePlaceholders_no_dollar [OF plain_keys(9) plain]
        replacePlaceholders_no_dollar [OF plain_keys(10) plain])
qed

lemma startup_scenario:
  "launcher (scenario_with m) ''1.19.4'' username fresh
   = andThen (string_at m [Name ''latest'', Name ''release'']) (\<lambda>latestVersion.
     andThen (acquire (scenario_with m) ''1.19.4'' m (installed tree_directories [manifest_url]))
       (\<lambda>(w5, versionJson).
     andThen (build_classPath (scenario_with m) ''1.19.4'' w5 versionJson) (\<lambda>cp.
     andThen (game_arguments_template versionJson) (\<lambda>template.
     andThen (expand_game_arguments (scenario_with m) ''1.19.4'' username versionJson template) (\<lambda>args.
     Inr \<lparr>final_world = w5, classPath = classPath_clause cp, gameArgs = args\<rparr>)))))"
proof -
  have directories: "\<And>f. andThen (create_program_directories (scenario_with m) (installed tree_start [manifest_url]))
          (\<lambda>w3. andThen (create_version_directories (scenario_with m) ''1.19.4'' w3) f)
        = f (installed tree_directories [manifest_url])"
    using create_directories_scenario [of m "[manifest_url]"]
    by (auto simp: andThen_def split: sum.splits)
  show ?thesis
    unfolding launcher_def
    by (simp only: fetch_manifest_scenario case_prod_conv Let_def create_alsoft_conf_scenario
        andThen_Inr directories)
qed

lemma launcher_scenario:
  "launcher scenario ''1.19.4'' ''humanitymanu'' fresh
   = Inr \<lparr>final_world = installed tree_library
            [manifest_url, ''http://d'', ''http://a'', ''http://log'', ''http://jar'', ''http://lib''],
          classPath = '' -cp '' @ [CHR 0x22]
            @ ''/ql/versions/1.19.4/libraries/org/lib.jar:/ql/versions/1.19.4/1.19.4.jar''
            @ [CHR 0x22] @ '' '',
          gameArgs = ''--username humanitymanu''\<rparr>"
proof -
  have latest: "string_at scenario_manifest [Name ''latest'', Name ''release''] = Inr ''1.19.4''"
    by (simp add: scenario_manifest_def string_at_def c_str_def)
  show ?thesis
    by (simp only: scenario_is startup_scenario latest andThen_Inr acquire_scenario case_prod_conv
        build_classPath_scenario game_arguments_scenario expand_game_arguments_scenario
        classPath_clause_def)
qed


subsection \<open>The asset pass after lines 62 to 65\<close>

text \<open>A directory stays a directory through every step of the acquisition.\<close>

lemma DirectoryExists_files:
  "DirectoryExists E w p = (node_at (files w) (components (plat E) p) = Some Dir)"
  by (auto simp: DirectoryExists_def split: option.splits node.splits)

lemma node_at_keeps_dir:
  "(\<And>q. fs q = Some Dir \<Longrightarrow> fs' q = Some Dir) \<Longrightarrow> node_at fs cs = Some Dir \<Longrightarrow> node_at fs' cs = Some Dir"
  by (auto simp: node_at_def split: if_splits)

lemma DirectoryExists_CreateDirectoryIfNotExists:
  "CreateDirectoryIfNotExists E w q = Inr w1 \<Longrightarrow> DirectoryExists E w p \<Longrightarrow> DirectoryExists E w1 p"
  unfolding DirectoryExists_files
  by (erule node_at_keeps_dir [rotated]) (rule CreateDirectoryIfNotExists_keeps)

lemma DirectoryExists_CreateFileIfNotExists:
  "DirectoryExists E w p \<Longrightarrow> DirectoryExists E (CreateFileIfNotExists E w q) p"
  by (auto simp: DirectoryExists_files CreateFileIfNotExists_def open_out_def Let_def node_at_def
      split: option.splits if_splits)

lemma DirectoryExists_saveStringToFile:
  "DirectoryExists E w p \<Longrightarrow> DirectoryExists E (saveStringToFile E w s q) p"
  by (auto simp: DirectoryExists_files saveStringToFile_def open_out_def Let_def node_at_def
      split: option.splits if_splits)

lemma DirectoryExists_saveJsonToFile:
  "DirectoryExists E w p \<Longrightarrow> DirectoryExists E (saveJsonToFile E w j q) p"
proof -
  assume d: "DirectoryExists E w p"
  have "saveJsonToFile E w j q = saveStringToFile E (CreateFileIfNotExists E w q) (Writer E j) q"
    by (simp add: saveJsonToFile_def saveStringToFile_def Let_def)
  with d show ?thesis
    by (simp add: DirectoryExists_saveStringToFile DirectoryExists_CreateFileIfNotExists)
qed

lemma DirectoryExists_requests [simp]:
  "DirectoryExists E (w\<lparr>requests := r\<rparr>) p = DirectoryExists E w p"
  by (simp add: DirectoryExists_files)

lemma DirectoryExists_resolve_loop:
  "resolve_loop E version w vj entries = Inr (w1, vj1) \<Longrightarrow> DirectoryExists E w p \<Longrightarrow> DirectoryExists E w1 p"
proof (induction entries)
  case Nil
  then show ?case by simp
next
  case (Cons entry entries)
  then show ?case
    by (auto simp: andThen_def curlGet_def split: sum.splits if_splits)
qed

lemma DirectoryExists_resolve_version:
  "resolve_version E version document w = Inr (w1, vj1) \<Longrightarrow> DirectoryExists E w p \<Longrightarrow> DirectoryExists E w1 p"
  by (auto simp: resolve_version_def andThen_def split: sum.splits dest: DirectoryExists_resolve_loop)

lemma DirectoryExists_download_descriptor_files:
  "download_descriptor_files E version vj w = Inr (w1, aj) \<Longrightarrow> DirectoryExists E w p \<Longrightarrow> DirectoryExists E w1 p"
  by (auto simp: download_descriptor_files_def andThen_def Let_def curlGet_def
      split: sum.splits
      intro!: DirectoryExists_saveStringToFile DirectoryExists_saveJsonToFile
        DirectoryExists_CreateFileIfNotExists)

lemma DirectoryExists_library_step:
  "library_step E libBase w library = Inr w1 \<Longrightarrow> DirectoryExists E w p \<Longrightarrow> DirectoryExists E w1 p"
  by (auto simp: library_step_def andThen_def Let_def curlGet_def
      split: sum.splits if_splits
      intro!: DirectoryExists_saveStringToFile DirectoryExists_CreateFileIfNotExists
      dest: DirectoryExists_CreateDirectoryIfNotExists)

lemma DirectoryExists_library_loop:
  "library_loop E libBase w libs = Inr w1 \<Longrightarrow> DirectoryExists E w p \<Longrightarrow> DirectoryExists E w1 p"
proof (induction libs arbitrary: w)
  case Nil
  then show ?case by simp
next
  case (Cons library libs)
  then show ?case
    by (auto simp: andThen_def split: sum.splits dest: DirectoryExists_library_step)
qed

lemma DirectoryExists_library_pass:
  "library_pass E version vj w = Inr w1 \<Longrightarrow> DirectoryExists E w p \<Longrightarrow> DirectoryExists E w1 p"
  by (auto simp: library_pass_def andThen_def Let_def split: sum.splits
      dest: DirectoryExists_library_loop)

text \<open>
  In the branch of lines 90 to 160, entered with the assets root in place, the asset pass
  does nothing: the result is the world the library pass left.
\<close>

lemma download_skips_asset_pass:
  assumes root: "DirectoryExists E w (GetProgramDirectory E @ ''/assets'')"
    and run: "download E version document w = Inr (w', versionJson)"
  shows "\<exists>w2 w3 assetJson.
           resolve_version E version document (CreateFileIfNotExists E w (marker_file E version))
             = Inr (w2, versionJson) \<and>
           download_descriptor_files E version versionJson w2 = Inr (w3, assetJson) \<and>
           library_pass E version versionJson w3 = Inr w'"
proof -
  from run obtain w2 w3 aj w4 where
    r: "resolve_version E version document (CreateFileIfNotExists E w (marker_file E version)) = Inr (w2, versionJson)"
    and d: "download_descriptor_files E version versionJson w2 = Inr (w3, aj)"
    and l: "library_pass E version versionJson w3 = Inr w4"
    and a: "asset_pass E aj w4 = Inr w'"
    by (auto simp: download_def andThen_def Let_def split: sum.splits)
  from root have "DirectoryExists E (CreateFileIfNotExists E w (marker_file E version))
                    (GetProgramDirectory E @ ''/assets'')"
    by (rule DirectoryExists_CreateFileIfNotExists)
  from DirectoryExists_resolve_version [OF r this]
  have "DirectoryExists E w2 (GetProgramDirectory E @ ''/assets'')" .
  from DirectoryExists_download_descriptor_files [OF d this]
  have "DirectoryExists E w3 (GetProgramDirectory E @ ''/assets'')" .
  from DirectoryExists_library_pass [OF l this]
  have "DirectoryExists E w4 (GetProgramDirectory E @ ''/assets'')" .
  with a have "w' = w4" by (simp add: asset_pass_def)
  with r d l show ?thesis by blast
qed

lemma create_directories_well_formed:
  "well_formed fs \<Longrightarrow> node_at fs base = Some Dir \<Longrightarrow> create_directories fs base cs = Inr fs' \<Longrightarrow>
   well_formed fs'"
proof (induction cs arbitrary: fs base)
  case Nil
  then show ?case by simp
next
  case (Cons c cs)
  show ?case
  proof (cases "node_at fs (base @ [c])")
    case None
    let ?fs = "fs(base @ [c] \<mapsto> Dir)"
    have wf: "well_formed ?fs"
      unfolding well_formed_def
    proof (intro allI impI)
      fix p
      assume p: "?fs p \<noteq> None"
      show "p \<noteq> [] \<and> node_at ?fs (butlast p) = Some Dir"
      proof (cases "p = base @ [c]")
        case True
        with Cons.prems(2) None show ?thesis
          by (auto simp: node_at_def split: if_splits)
      next
        case False
        with p have "fs p \<noteq> None" by simp
        with Cons.prems(1) have "p \<noteq> []" and "node_at fs (butlast p) = Some Dir"
          unfolding well_formed_def by blast+
        with None show ?thesis
          by (auto simp: node_at_def split: if_splits)
      qed
    qed
    have "node_at ?fs (base @ [c]) = Some Dir" by (simp add: node_at_def)
    moreover from None Cons.prems(3) have "create_directories ?fs (base @ [c]) cs = Inr fs'" by simp
    ultimately show ?thesis using wf by (intro Cons.IH)
  next
    case (Some m)
    with Cons.prems show ?thesis by (cases m) (auto intro: Cons.IH)
  qed
qed

lemma CreateDirectoryIfNotExists_well_formed:
  "well_formed (files w) \<Longrightarrow> CreateDirectoryIfNotExists E w p = Inr w1 \<Longrightarrow> well_formed (files w1)"
  using create_directories_well_formed [of "files w" "[]" "components (plat E) p"]
  by (auto simp: CreateDirectoryIfNotExists_def andThen_def node_at_root split: if_splits sum.splits)

text \<open>Lines 62 to 65 leave the assets root in place, whatever was there before.\<close>

lemma create_program_directories_assets_root:
  assumes wf: "well_formed (files w)"
    and run: "create_program_directories E w = Inr w'"
  shows "DirectoryExists E w' (GetProgramDirectory E @ ''/assets'')"
proof -
  let ?pd = "GetProgramDirectory E"
  from run obtain w1 w2 w3 where
    p: "CreateDirectoryIfNotExists E w (?pd @ ''/profiles'') = Inr w1"
    and i: "CreateDirectoryIfNotExists E w1 (?pd @ ''/assets/indexes'') = Inr w2"
    and o: "CreateDirectoryIfNotExists E w2 (?pd @ ''/assets/objects'') = Inr w3"
    and v: "CreateDirectoryIfNotExists E w3 (?pd @ ''/versions'') = Inr w'"
    by (auto simp: create_program_directories_def andThen_def Let_def split: if_splits sum.splits)
  have wf2: "well_formed (files w2)"
    using wf p i by (blast intro: CreateDirectoryIfNotExists_well_formed)
  have "?pd @ ''/assets/indexes'' = (?pd @ ''/assets'') @ CHR ''/'' # ''indexes''" by simp
  then have c: "components (plat E) (?pd @ ''/assets/indexes'')
                 = components (plat E) (?pd @ ''/assets'') @ [''indexes'']"
    by (simp only: components_separator [OF slash_separator])
       (simp add: components_def is_separator_def)
  from CreateDirectoryIfNotExists_dir [OF i]
  have "node_at (files w2) (components (plat E) (?pd @ ''/assets'') @ [''indexes'']) \<noteq> None"
    by (simp add: c)
  from well_formed_prefix [OF wf2 this]
  have "DirectoryExists E w2 (?pd @ ''/assets'')" by (simp add: DirectoryExists_files)
  from DirectoryExists_CreateDirectoryIfNotExists [OF o this]
  have "DirectoryExists E w3 (?pd @ ''/assets'')" .
  from DirectoryExists_CreateDirectoryIfNotExists [OF v this] show ?thesis .
qed

subsection \<open>Where the program does not do what the specification says\<close>

text \<open>
  C2. The scenario, run from the fresh installation, returns with the library file and
  the asset index file on disk and with no asset object file: the assets root does not
  exist when the program starts, line 63 creates it, and the test of line 145 then
  skips the asset pass. The origin of the asset objects is never asked. (The lemmas
  above say the same of every run from a tree-shaped file system.)
\<close>

theorem fresh_run_leaves_no_asset_object:
  "main scenario fresh
   = Inr \<lparr>final_world = installed tree_library
            [manifest_url, ''http://d'', ''http://a'', ''http://log'', ''http://jar'', ''http://lib''],
          classPath = '' -cp '' @ [CHR 0x22]
            @ ''/ql/versions/1.19.4/libraries/org/lib.jar:/ql/versions/1.19.4/1.19.4.jar''
            @ [CHR 0x22] @ '' '',
          gameArgs = ''--username humanitymanu''\<rparr> \<and>
   FileExists scenario (installed tree_library
        [manifest_url, ''http://d'', ''http://a'', ''http://log'', ''http://jar'', ''http://lib''])
     ''/ql/versions/1.19.4/libraries/org/lib.jar'' \<and>
   FileExists scenario (installed tree_library
        [manifest_url, ''http://d'', ''http://a'', ''http://log'', ''http://jar'', ''http://lib''])
     ''/ql/assets/indexes/3.json'' \<and>
   DirectoryExists scenario fresh ''/ql/assets'' = False \<and>
   path_exists scenario (installed tree_library
        [manifest_url, ''http://d'', ''http://a'', ''http://log'', ''http://jar'', ''http://lib''])
     ''/ql/assets/objects/aa/aa11'' = False \<and>
   resources_origin @ ''aa/aa11'' \<notin> set [manifest_url, ''http://d'', ''http://a'', ''http://log'', ''http://jar'', ''http://lib'']"
  by (simp add: main_def launcher_scenario)
     (simp add: file_defs path_exists_def scenario_fields tree_defs tree_simps manifest_url_def
        resources_origin_def del: map_of.simps)

text \<open>Whatever the manifest: when no entry has the version's id, the loop changes nothing.\<close>

lemma resolve_loop_absent:
  "list_all (\<lambda>entry. \<exists>entry_id. string_at entry [Name ''id''] = Inr entry_id \<and> entry_id \<noteq> version)
     entries \<Longrightarrow>
   resolve_loop E version w versionJson entries = Inr (w, versionJson)"
  by (induction entries) auto

lemma download_absent:
  assumes "lookup document [Name ''versions''] = Inr (JArray entries)"
    and "list_all (\<lambda>entry. \<exists>entry_id. string_at entry [Name ''id''] = Inr entry_id \<and> entry_id \<noteq> version)
           entries"
  shows "download E version document w = Inl AssertionFailed"
proof -
  have resolved: "\<And>w. resolve_version E version document w = Inr (w, JNull)"
    using assms(1) resolve_loop_absent [OF assms(2)]
    by (simp add: resolve_version_def del: lookup.simps)
  have descriptor: "\<And>w. download_descriptor_files E version JNull w = Inl AssertionFailed"
    by (simp add: download_descriptor_files_def string_at_def)
  show ?thesis
    by (simp add: download_def resolved descriptor)
qed

lemma resolve_version_absent:
  "resolve_version (scenario_with manifest_without) ''1.19.4'' manifest_without (installed tree urls)
   = Inr (installed tree urls, JNull)"
  by (simp add: resolve_version_def manifest_without_def string_at_def c_str_def)

text \<open>
  C3. With a manifest that does not list the version, the loop of lines 96 to 102 ends
  with the descriptor as it was constructed (\<open>JNull\<close>), and line 104 reads a member of
  it: the program ends in a failed assertion.
\<close>

theorem absent_version_crashes:
  "resolve_version (scenario_with manifest_without) ''1.19.4'' manifest_without
     (installed tree_marker [manifest_url])
   = Inr (installed tree_marker [manifest_url], JNull) \<and>
   main (scenario_with manifest_without) fresh = Inl AssertionFailed"
proof -
  have latest: "string_at manifest_without [Name ''latest'', Name ''release''] = Inr ''1.19.3''"
    by (simp add: manifest_without_def string_at_def c_str_def)
  have descriptor: "\<And>w. download_descriptor_files (scenario_with manifest_without) ''1.19.4'' JNull w
                     = Inl AssertionFailed"
    by (simp add: download_descriptor_files_def string_at_def)
  have "acquire (scenario_with manifest_without) ''1.19.4'' manifest_without
          (installed tree_directories [manifest_url]) = Inl AssertionFailed"
    unfolding acquire_def download_def
    by (simp only: marker_scenario if_False Let_def resolve_version_absent andThen_Inr
        case_prod_conv descriptor andThen_Inl)
  then have "main (scenario_with manifest_without) fresh = Inl AssertionFailed"
    unfolding main_def
    by (simp only: startup_scenario latest andThen_Inr andThen_Inl)
  then show ?thesis
    by (simp only: resolve_version_absent simp_thms)
qed

text \<open>
  C7. A library whose artifact path is \<^verbatim>\<open>null\<close> is not skipped: line 130 compares the
  library's file name with \<^verbatim>\<open>libBase + "/null"\<close>, and \<^verbatim>\<open>libBase\<close> ends in a slash already.
  The file is created and the artifact fetched. The path that line 130 does skip is
  \<^verbatim>\<open>/null\<close>.
\<close>

theorem null_library_is_fetched:
  "library_step scenario ''/ql/versions/1.19.4/libraries/''
     (installed tree_descriptor [manifest_url, ''http://d'', ''http://a'', ''http://log'', ''http://jar''])
     (library_at ''null'' ''http://lib'')
   = Inr (installed (([''ql'', ''versions'', ''1.19.4'', ''libraries'', ''null''], File ''LIB'')
                       # tree_descriptor)
            [manifest_url, ''http://d'', ''http://a'', ''http://log'', ''http://jar'', ''http://lib'']) \<and>
   library_step scenario ''/ql/versions/1.19.4/libraries/''
     (installed tree_descriptor [manifest_url, ''http://d'', ''http://a'', ''http://log'', ''http://jar''])
     (library_at ''/null'' ''http://lib'')
   = Inr (installed tree_descriptor
            [manifest_url, ''http://d'', ''http://a'', ''http://log'', ''http://jar''])"
proof -
  let ?E = "scenario_with scenario_manifest"
  let ?urls = "[manifest_url, ''http://d'', ''http://a'', ''http://log'', ''http://jar'']"
  have strings:
    "\<And>p. string_at (library_at p ''http://lib'') [Name ''downloads'', Name ''artifact'', Name ''path'']
            = Inr (c_str p)"
    "\<And>p. string_at (library_at p ''http://lib'') [Name ''downloads'', Name ''artifact'', Name ''url'']
            = Inr ''http://lib''"
    "\<And>p. HasMember (library_at p ''http://lib'') ''rules'' = Inr False"
    by (simp_all add: library_at_def string_at_def c_str_def)
  have c: "c_str ''null'' = ''null''" "c_str ''/null'' = ''/null''"
    by (simp_all add: c_str_def)
  have absent: "\<not> FileExists ?E (installed tree_descriptor ?urls) ''/ql/versions/1.19.4/libraries/null''"
    by (simp add: file_defs scenario_with_fields tree_defs tree_simps del: map_of.simps)
  have parent: "parent_path Linux ''/ql/versions/1.19.4/libraries/null'' = ''/ql/versions/1.19.4/libraries''"
    by (simp add: parent_path_def is_separator_def)
  have folder: "CreateDirectoryIfNotExists ?E (installed tree_descriptor ?urls)
                  ''/ql/versions/1.19.4/libraries''
                = Inr (installed tree_descriptor ?urls)"
    by (simp add: file_defs scenario_with_fields tree_defs tree_simps del: map_of.simps)
  have placeholder: "\<And>urls. CreateFileIfNotExists ?E (installed tree_descriptor urls)
                  ''/ql/versions/1.19.4/libraries/null''
                = installed (([''ql'', ''versions'', ''1.19.4'', ''libraries'', ''null''], File [])
                              # tree_descriptor) urls"
    by (simp add: file_defs scenario_with_fields tree_defs tree_simps del: map_of.simps)
  have artifact: "\<And>urls. saveStringToFile ?E
                  (installed (([''ql'', ''versions'', ''1.19.4'', ''libraries'', ''null''], File [])
                              # tree_descriptor) urls)
                  ''LIB'' ''/ql/versions/1.19.4/libraries/null''
                = installed (([''ql'', ''versions'', ''1.19.4'', ''libraries'', ''null''], File ''LIB'')
                              # tree_descriptor) urls"
    by (simp add: file_defs scenario_with_fields tree_defs tree_simps del: map_of.simps)
  have allowed: "\<And>p. library_allowed ?E (library_at p ''http://lib'') = Inr True"
    by (simp add: library_allowed_def strings)
  have differs: "''/ql/versions/1.19.4/libraries/null'' \<noteq> ''/ql/versions/1.19.4/libraries//null''"
    by simp
  have first: "library_step ?E ''/ql/versions/1.19.4/libraries/'' (installed tree_descriptor ?urls)
     (library_at ''null'' ''http://lib'')
   = Inr (installed (([''ql'', ''versions'', ''1.19.4'', ''libraries'', ''null''], File ''LIB'')
                       # tree_descriptor) (?urls @ [''http://lib'']))"
    unfolding library_step_def
    by (simp only: strings c andThen_Inr Let_def scenario_with_fields append_Cons append_Nil
        absent differs parent allowed folder placeholder curlGet_installed case_prod_conv responses
        artifact simp_thms if_True)
  have second: "library_step ?E ''/ql/versions/1.19.4/libraries/'' (installed tree_descriptor ?urls)
     (library_at ''/null'' ''http://lib'')
   = Inr (installed tree_descriptor ?urls)"
    unfolding library_step_def
    by (simp only: strings c andThen_Inr Let_def append_Cons append_Nil simp_thms if_False)
  from first second show ?thesis
    by (simp only: scenario_is append_Cons append_Nil simp_thms)
qed

text \<open>
  C8. With a transport that fails and a cached manifest on disk, the program does not
  read the cache: the document stays \<open>JNull\<close> and line 58 ends the program in a failed
  assertion.
\<close>

theorem offline_run_ignores_cache:
  "FileExists scenario_offline (installed tree_start []) ''/ql/manifest_cache.json'' \<and>
   Parse scenario_offline (c_str (readFileContents scenario_offline (installed tree_start [])
      ''/ql/manifest_cache.json'')) = scenario_manifest \<and>
   fetch_manifest scenario_offline (installed tree_start [])
     = (installed tree_start [manifest_url], JNull) \<and>
   main scenario_offline (installed tree_start []) = Inl AssertionFailed"
proof -
  have cache: "FileExists scenario_offline (installed tree_start []) ''/ql/manifest_cache.json''"
    by (simp add: file_defs scenario_offline_fields tree_defs tree_simps del: map_of.simps)
  have content: "Parse scenario_offline (c_str (readFileContents scenario_offline
                   (installed tree_start []) ''/ql/manifest_cache.json'')) = scenario_manifest"
    by (simp add: readFileContents_def node_at_def components_def is_separator_def c_str_def
        scenario_offline_fields scenario_Parse_def tree_defs tree_simps del: map_of.simps)
  have fetch: "fetch_manifest scenario_offline (installed tree_start [])
                 = (installed tree_start [manifest_url], JNull)"
    by (simp add: fetch_manifest_def curlGet_def scenario_offline_fields installed_def)
  have conf: "create_alsoft_conf scenario_offline (installed tree_start [manifest_url])
                = Inr (installed tree_start [manifest_url])"
    by (simp add: create_alsoft_conf_def os_def file_defs scenario_offline_fields tree_defs
        tree_simps del: map_of.simps)
  have latest: "string_at JNull [Name ''latest'', Name ''release''] = Inl AssertionFailed"
    by (simp add: string_at_def)
  have "main scenario_offline (installed tree_start []) = Inl AssertionFailed"
    unfolding main_def launcher_def
    by (simp only: fetch case_prod_conv Let_def conf andThen_Inr latest andThen_Inl)
  with cache content fetch show ?thesis by (simp only: simp_thms)
qed

end
